theory Spec2Isabelle
  imports Main
begin

section \<open>Strings and exceptions of the Python source\<close>

text \<open>
  A Python \<open>str\<close> is modelled as a \<open>string\<close>: one \<open>char\<close> per code point, so the
  model covers the code points below 256. An exception that the source raises is a value
  of type \<open>error\<close>; a function that may raise returns \<open>error + 'a\<close>.
\<close>

datatype error =
    ValueError string
  | IndexError
  | AttributeError
  | TypeError
  | RuntimeError string
  | OSError

text \<open>
  \<open>str.strip()\<close> without argument removes the characters for which \<open>str.isspace\<close>
  holds; below 256 these are the code points 9 to 13, 28 to 32, 133 and 160.
\<close>

definition isspace :: "char \<Rightarrow> bool" where
  "isspace c =
     (let n = (of_char c :: nat)
      in (9 \<le> n \<and> n \<le> 13) \<or> (28 \<le> n \<and> n \<le> 32) \<or> n = 133 \<or> n = 160)"

definition lstrip_by :: "(char \<Rightarrow> bool) \<Rightarrow> string \<Rightarrow> string" where
  "lstrip_by p s = dropWhile p s"

definition rstrip_by :: "(char \<Rightarrow> bool) \<Rightarrow> string \<Rightarrow> string" where
  "rstrip_by p s = rev (dropWhile p (rev s))"

definition strip_by :: "(char \<Rightarrow> bool) \<Rightarrow> string \<Rightarrow> string" where
  "strip_by p s = rstrip_by p (lstrip_by p s)"

text \<open>\<open>s.strip()\<close>, \<open>s.strip(chars)\<close> and \<open>s.rstrip(chars)\<close>.\<close>

definition strip :: "string \<Rightarrow> string" where
  "strip s = strip_by isspace s"

definition strip_chars :: "string \<Rightarrow> string \<Rightarrow> string" where
  "strip_chars chars s = strip_by (\<lambda>c. c \<in> set chars) s"

definition rstrip_chars :: "string \<Rightarrow> string \<Rightarrow> string" where
  "rstrip_chars chars s = rstrip_by (\<lambda>c. c \<in> set chars) s"

definition startswith :: "string \<Rightarrow> string \<Rightarrow> bool" where
  "startswith s p = (take (length p) s = p)"

text \<open>
  \<open>s.split(sep)\<close> for a one-character separator: the pieces between the occurrences of
  \<open>sep\<close>, an empty piece wherever two occurrences touch or one stands at an end.
\<close>

fun split :: "char \<Rightarrow> string \<Rightarrow> string list" where
  "split sep [] = [[]]"
| "split sep (c # cs) =
     (if c = sep then [] # split sep cs
      else (case split sep cs of
              [] \<Rightarrow> [[c]]
            | w # ws \<Rightarrow> (c # w) # ws))"

section \<open>sanitize_filename\<close>

text \<open>\<open>re.sub(r'[<>:"/\\|?*]', '_', name)\<close>: every listed character becomes an underscore.\<close>

definition invalid_chars :: string where
  "invalid_chars = [CHR ''<'', CHR ''>'', CHR '':'', CHR 0x22, CHR ''/'', CHR 0x5C,
                    CHR ''|'', CHR ''?'', CHR ''*'']"

definition replace_invalid :: "string \<Rightarrow> string" where
  "replace_invalid name = map (\<lambda>c. if c \<in> set invalid_chars then CHR ''_'' else c) name"

text \<open>
  \<open>re.sub(r'_{2,}', '_', s)\<close>: scanning from the left, a run of two or more underscores
  is matched greedily and replaced by one underscore; any other character is kept.
\<close>

function collapse_underscores :: "string \<Rightarrow> string" where
  "collapse_underscores [] = []"
| "collapse_underscores [c] = [c]"
| "collapse_underscores (c # d # cs) =
     (if c = CHR ''_'' \<and> d = CHR ''_''
      then CHR ''_'' # collapse_underscores (dropWhile (\<lambda>x. x = CHR ''_'') cs)
      else c # collapse_underscores (d # cs))"
  by pat_completeness auto
termination
  by (relation "measure length") (auto simp: le_imp_less_Suc length_dropWhile_le less_SucI)

definition sanitize_filename :: "string \<Rightarrow> string" where
  "sanitize_filename name =
     (let sanitized = replace_invalid name;
          sanitized = collapse_underscores sanitized;
          sanitized = strip_chars ''_ '' sanitized;
          sanitized = (if length sanitized > 100 then take 100 sanitized else sanitized)
      in if sanitized = [] then ''TLDV_Meeting'' else sanitized)"

text \<open>Whether a string holds two underscores next to each other.\<close>

fun double_underscore :: "string \<Rightarrow> bool" where
  "double_underscore (c # d # cs) =
     (c = CHR ''_'' \<and> d = CHR ''_'' \<or> double_underscore (d # cs))"
| "double_underscore _ = False"

section \<open>extract_meeting_id\<close>

text \<open>
  The body of the \<open>try\<close> block: \<open>url.split('/')[-1]\<close> raises \<open>IndexError\<close> on an empty
  list, and a short identifier raises \<open>ValueError\<close>.
\<close>

definition extract_meeting_id_try :: "string \<Rightarrow> error + string" where
  "extract_meeting_id_try url =
     (case split CHR ''/'' url of
        [] \<Rightarrow> Inl IndexError
      | w # ws \<Rightarrow>
          (let meeting_id = last (w # ws)
           in if length meeting_id < 10 then Inl (ValueError ''Invalid meeting ID format'')
              else Inr meeting_id))"

text \<open>The handler turns \<open>IndexError\<close> and \<open>ValueError\<close> into one \<open>ValueError\<close>.\<close>

definition invalid_meeting_id :: "string \<Rightarrow> error" where
  "invalid_meeting_id url = ValueError (''Could not extract meeting ID from URL: '' @ url)"

definition extract_meeting_id :: "string \<Rightarrow> error + string" where
  "extract_meeting_id url0 =
     (let url = rstrip_chars ''/'' (strip url0)
      in case extract_meeting_id_try url of
           Inl IndexError \<Rightarrow> Inl (invalid_meeting_id url)
         | Inl (ValueError m) \<Rightarrow> Inl (invalid_meeting_id url)
         | Inl e \<Rightarrow> Inl e
         | Inr meeting_id \<Rightarrow> Inr meeting_id)"

section \<open>prepare_auth_token\<close>

definition prepare_auth_token :: "string \<Rightarrow> string" where
  "prepare_auth_token token0 =
     (let token = strip token0
      in if \<not> startswith token ''Bearer '' \<and> \<not> startswith token ''bearer ''
         then ''Bearer '' @ token
         else token)"

section \<open>JSON values and dictionary access\<close>

text \<open>
  The value that \<open>response.json()\<close> returns. A JSON object is a Python \<open>dict\<close>, kept
  as an association list read with \<open>map_of\<close>. Numbers are integers here: the source only
  tests a number for being zero.
\<close>

datatype json =
    JNull
  | JBool bool
  | JNum int
  | JStr string
  | JArr "json list"
  | JObj "(string \<times> json) list"

text \<open>Python's truth value of an object, as \<open>not x\<close> and \<open>if x\<close> test it.\<close>

fun truthy :: "json \<Rightarrow> bool" where
  "truthy JNull = False"
| "truthy (JBool b) = b"
| "truthy (JNum n) = (n \<noteq> 0)"
| "truthy (JStr s) = (s \<noteq> [])"
| "truthy (JArr xs) = (xs \<noteq> [])"
| "truthy (JObj kvs) = (kvs \<noteq> [])"

text \<open>
  \<open>x.get(key, default)\<close>: defined on a \<open>dict\<close> only; on any other value the attribute
  lookup raises \<open>AttributeError\<close>.
\<close>

fun py_get :: "json \<Rightarrow> string \<Rightarrow> json \<Rightarrow> error + json" where
  "py_get (JObj kvs) k d = Inr (case map_of kvs k of None \<Rightarrow> d | Some v \<Rightarrow> v)"
| "py_get _ k d = Inl AttributeError"

section \<open>Dates: strptime and strftime\<close>

record datetime =
  year :: nat
  month :: nat
  day :: nat
  hour :: nat
  minute :: nat
  second :: nat
  microsecond :: nat

text \<open>
  \<open>datetime.strptime\<close> compiles the format into a regular expression and matches it, with
  backtracking, at the start of the string. A matcher returns the ways in which it can
  match, as pairs of matched text and remaining input, in the order in which the regular
  expression engine tries them.
\<close>

type_synonym matcher = "string \<Rightarrow> (string \<times> string) list"

definition one_of :: "string \<Rightarrow> matcher" where
  "one_of cs s = (case s of [] \<Rightarrow> [] | c # r \<Rightarrow> if c \<in> set cs then [([c], r)] else [])"

definition seq :: "matcher \<Rightarrow> matcher \<Rightarrow> matcher" where
  "seq p q s = concat (map (\<lambda>(a, r). map (\<lambda>(b, r'). (a @ b, r')) (q r)) (p s))"

definition alt :: "matcher \<Rightarrow> matcher \<Rightarrow> matcher" where
  "alt p q s = p s @ q s"

definition digit :: matcher where
  "digit = one_of ''0123456789''"

definition nonzero :: matcher where
  "nonzero = one_of ''123456789''"

text \<open>
  The directives of the format, as the standard library defines them:
  \<open>%Y\<close> is \<open>\d\d\d\d\<close>, \<open>%m\<close> is \<open>1[0-2]|0[1-9]|[1-9]\<close>,
  \<open>%d\<close> is \<open>3[0-1]|[1-2]\d|0[1-9]|[1-9]| [1-9]\<close>, \<open>%H\<close> is \<open>2[0-3]|[0-1]\d|\d\<close>,
  \<open>%M\<close> is \<open>[0-5]\d|\d\<close>, \<open>%S\<close> is \<open>6[0-1]|[0-5]\d|\d\<close> and \<open>%f\<close> is \<open>[0-9]{1,6}\<close>.
\<close>

definition re_Y :: matcher where
  "re_Y = seq digit (seq digit (seq digit digit))"

definition re_m :: matcher where
  "re_m = alt (seq (one_of ''1'') (one_of ''012'')) (alt (seq (one_of ''0'') nonzero) nonzero)"

definition re_d :: matcher where
  "re_d = alt (seq (one_of ''3'') (one_of ''01''))
         (alt (seq (one_of ''12'') digit)
         (alt (seq (one_of ''0'') nonzero)
         (alt nonzero (seq (one_of '' '') nonzero))))"

definition re_H :: matcher where
  "re_H = alt (seq (one_of ''2'') (one_of ''0123'')) (alt (seq (one_of ''01'') digit) digit)"

definition re_M :: matcher where
  "re_M = alt (seq (one_of ''012345'') digit) digit"

definition re_S :: matcher where
  "re_S = alt (seq (one_of ''6'') (one_of ''01'')) (alt (seq (one_of ''012345'') digit) digit)"

definition re_f :: matcher where
  "re_f = alt (seq digit (seq digit (seq digit (seq digit (seq digit digit)))))
         (alt (seq digit (seq digit (seq digit (seq digit digit))))
         (alt (seq digit (seq digit (seq digit digit)))
         (alt (seq digit (seq digit digit))
         (alt (seq digit digit) digit))))"

datatype pattern_item = Lit char | Directive matcher

text \<open>The expression is compiled with \<open>IGNORECASE\<close>, so a literal letter matches both cases.\<close>

definition lower :: "char \<Rightarrow> char" where
  "lower c =
     (case map_of (zip ''ABCDEFGHIJKLMNOPQRSTUVWXYZ'' ''abcdefghijklmnopqrstuvwxyz'') c of
        None \<Rightarrow> c
      | Some l \<Rightarrow> l)"

fun run_pattern :: "pattern_item list \<Rightarrow> string \<Rightarrow> (string list \<times> string) list" where
  "run_pattern [] s = [([], s)]"
| "run_pattern (Lit c # ps) s =
     (case s of
        [] \<Rightarrow> []
      | x # r \<Rightarrow> if lower x = lower c then run_pattern ps r else [])"
| "run_pattern (Directive p # ps) s =
     concat (map (\<lambda>(a, r). map (\<lambda>(fs, r'). (a # fs, r')) (run_pattern ps r)) (p s))"

text \<open>The format \<open>"%Y-%m-%dT%H:%M:%S.%fZ"\<close>.\<close>

definition iso_format :: "pattern_item list" where
  "iso_format =
     [Directive re_Y, Lit CHR ''-'', Directive re_m, Lit CHR ''-'', Directive re_d, Lit CHR ''T'',
      Directive re_H, Lit CHR '':'', Directive re_M, Lit CHR '':'', Directive re_S, Lit CHR ''.'',
      Directive re_f, Lit CHR ''Z'']"

text \<open>\<open>int(s)\<close> on a field: surrounding whitespace is ignored, the rest are decimal digits.\<close>

definition digit_value :: "char \<Rightarrow> nat" where
  "digit_value c = of_char c - 48"

definition int_of_field :: "string \<Rightarrow> nat" where
  "int_of_field s = foldl (\<lambda>n c. 10 * n + digit_value c) 0 (strip s)"

definition is_leap :: "nat \<Rightarrow> bool" where
  "is_leap y = (y mod 4 = 0 \<and> (y mod 400 = 0 \<or> y mod 100 \<noteq> 0))"

definition days_in_month :: "nat \<Rightarrow> nat \<Rightarrow> nat" where
  "days_in_month y m =
     (if m = 2 then (if is_leap y then 29 else 28)
      else if m = 4 \<or> m = 6 \<or> m = 9 \<or> m = 11 then 30 else 31)"

text \<open>
  \<open>datetime.strptime(s, "%Y-%m-%dT%H:%M:%S.%fZ")\<close>; \<open>None\<close> stands for the \<open>ValueError\<close>
  it raises: no match, unconverted data after the match, year 0, a day that the month
  does not have, or a second above 59. The fraction is padded with zeros to six digits.
\<close>

definition strptime :: "string \<Rightarrow> datetime option" where
  "strptime s =
     (case run_pattern iso_format s of
        [] \<Rightarrow> None
      | (captured, rest) # _ \<Rightarrow>
          if rest \<noteq> [] then None
          else (case captured of
                  [fY, fm, fd, fH, fM, fS, ff] \<Rightarrow>
                    (let y = int_of_field fY; m = int_of_field fm; d = int_of_field fd;
                         S = int_of_field fS;
                         fraction = int_of_field (ff @ replicate (6 - length ff) CHR ''0'')
                     in if y < 1 \<or> days_in_month y m < d \<or> 59 < S then None
                        else Some \<lparr>year = y, month = m, day = d, hour = int_of_field fH,
                                   minute = int_of_field fM, second = S,
                                   microsecond = fraction\<rparr>)
                | _ \<Rightarrow> None))"

definition digit_char :: "nat \<Rightarrow> char" where
  "digit_char n = ''0123456789'' ! (n mod 10)"

definition pad2 :: "nat \<Rightarrow> string" where
  "pad2 n = [digit_char (n div 10), digit_char n]"

text \<open>A number in decimal, without padding.\<close>

function decimal :: "nat \<Rightarrow> string" where
  "decimal n = (if n < 10 then [digit_char n] else decimal (n div 10) @ [digit_char n])"
  by pat_completeness auto
termination
  by (relation "measure (\<lambda>n. n)") auto

declare decimal.simps [simp del]

text \<open>
  \<open>date_obj.strftime("%Y-%m-%d_%H-%M-%S")\<close>. The C library formats the fields: \<open>%Y\<close> is
  the year as a decimal number, which glibc does not pad, so a year below 1000 has fewer
  than four digits; the other fields are padded to two digits.
\<close>

definition strftime :: "datetime \<Rightarrow> string" where
  "strftime dt =
     decimal (year dt) @ ''-'' @ pad2 (month dt) @ ''-'' @ pad2 (day dt) @ ''_'' @
     pad2 (hour dt) @ ''-'' @ pad2 (minute dt) @ ''-'' @ pad2 (second dt)"

section \<open>parse_meeting_info\<close>

record meeting_info =
  name :: string
  timestamp :: string
  source_url :: json
  full_data :: json

definition missing_source_url :: error where
  "missing_source_url = ValueError ''Video source URL not found in meeting data''"

text \<open>
  The \<open>try\<close> block around the date: \<open>strptime\<close> raises \<open>TypeError\<close> when its argument is
  not a string, and the handler catches \<open>ValueError\<close> only.
\<close>

definition parse_date :: "datetime \<Rightarrow> json \<Rightarrow> error + datetime" where
  "parse_date now created_at =
     (if truthy created_at
      then (case created_at of
              JStr s \<Rightarrow> (case strptime s of None \<Rightarrow> Inr now | Some d \<Rightarrow> Inr d)
            | _ \<Rightarrow> Inl TypeError)
      else Inr now)"

text \<open>
  \<open>now\<close> is the value of \<open>datetime.now()\<close>. \<open>sanitize_filename\<close> calls \<open>re.sub\<close>, which
  raises \<open>TypeError\<close> on a name that is not a string.
\<close>

definition parse_meeting_info :: "datetime \<Rightarrow> json \<Rightarrow> error + meeting_info" where
  "parse_meeting_info now data =
     (case py_get data ''meeting'' (JObj []) of
        Inl e \<Rightarrow> Inl e
      | Inr meeting \<Rightarrow>
     (case py_get data ''video'' (JObj []) of
        Inl e \<Rightarrow> Inl e
      | Inr video \<Rightarrow>
     (case py_get meeting ''name'' (JStr ''TLDV_Meeting'') of
        Inl e \<Rightarrow> Inl e
      | Inr nm \<Rightarrow>
     (case py_get meeting ''createdAt'' JNull of
        Inl e \<Rightarrow> Inl e
      | Inr created_at \<Rightarrow>
     (case py_get video ''source'' JNull of
        Inl e \<Rightarrow> Inl e
      | Inr src \<Rightarrow>
          if \<not> truthy src then Inl missing_source_url
          else
            (case parse_date now created_at of
               Inl e \<Rightarrow> Inl e
             | Inr date_obj \<Rightarrow>
                 (case nm of
                    JStr n \<Rightarrow>
                      Inr (\<lparr>name = sanitize_filename n, timestamp = strftime date_obj,
                            source_url = src, full_data = data\<rparr>)
                  | _ \<Rightarrow> Inl TypeError)))))))"

section \<open>The outside world\<close>

text \<open>
  What the program reads from its environment is a record of functions: the clock, the
  working directory, the file system, the HTTP session and \<open>subprocess.run\<close>. What it
  does to the environment is a list of events, in program order.
\<close>

datatype http_result = Response nat "json option" | RequestException

text \<open>
  The outcomes of \<open>subprocess.run\<close>: a completed process with its return code, the three
  exceptions that \<open>check_downloader_availability\<close> names, and any other \<open>OSError\<close> of the
  process start, such as the \<open>PermissionError\<close> for a file that is not executable.
\<close>

datatype run_result =
    Completed int
  | TimeoutExpired
  | FileNotFoundError
  | SubprocessError
  | OtherOSError

datatype event =
    MkDir string
  | HttpGet string string
  | Probe "string list"
  | WriteFile string
  | Started string
  | Spawn "string list"

record env =
  now_local :: datetime
  getcwd :: string
  mkdir_ok :: "string \<Rightarrow> bool"
  http_get :: "string \<Rightarrow> string \<Rightarrow> http_result"
  subprocess_run :: "string list \<Rightarrow> run_result"
  path_exists :: "string \<Rightarrow> bool"
  completion_order :: "nat \<Rightarrow> nat list"

section \<open>Paths\<close>

text \<open>
  A \<open>pathlib\<close> path on a POSIX system: a root, which is empty, one slash or two slashes,
  and the list of its parts. Parsing a string drops the empty parts and the parts that
  are a single dot; exactly two leading slashes are kept as the root, any other number of
  them is one slash.
\<close>

record pure_path =
  root :: string
  parts :: "string list"

fun str_join :: "string \<Rightarrow> string list \<Rightarrow> string" where
  "str_join sep [] = []"
| "str_join sep [x] = x"
| "str_join sep (x # y # ys) = x @ sep @ str_join sep (y # ys)"

definition Path :: "string \<Rightarrow> pure_path" where
  "Path s =
     \<lparr>root = (let n = length (takeWhile (\<lambda>c. c = CHR ''/'') s)
              in if n = 0 then [] else if n = 2 then ''//'' else ''/''),
      parts = filter (\<lambda>p. p \<noteq> [] \<and> p \<noteq> ''.'') (split CHR ''/'' s)\<rparr>"

text \<open>\<open>str(p)\<close>: the path without root and parts is written as a dot.\<close>

definition str_of_path :: "pure_path \<Rightarrow> string" where
  "str_of_path p =
     (if root p = [] \<and> parts p = [] then ''.'' else root p @ str_join ''/'' (parts p))"

text \<open>\<open>p / s\<close>: an absolute right operand replaces the path, a relative one extends it.\<close>

definition truediv :: "pure_path \<Rightarrow> string \<Rightarrow> pure_path" where
  "truediv p s = (if startswith s ''/'' then Path s else p\<lparr>parts := parts p @ parts (Path s)\<rparr>)"

definition path_name :: "pure_path \<Rightarrow> string" where
  "path_name p = (if parts p = [] then [] else last (parts p))"

definition path_parent :: "pure_path \<Rightarrow> pure_path" where
  "path_parent p = (if parts p = [] then p else p\<lparr>parts := butlast (parts p)\<rparr>)"

text \<open>
  \<open>p.stem\<close>: the name without its last suffix; the suffix starts at the last dot of the
  name, when that dot is neither the first nor the last character.
\<close>

definition path_stem :: "pure_path \<Rightarrow> string" where
  "path_stem p =
     (let n = path_name p; suffix = takeWhile (\<lambda>c. c \<noteq> CHR ''.'') (rev n)
      in if CHR ''.'' \<in> set n \<and> suffix \<noteq> [] \<and> length suffix + 1 < length n
         then take (length n - length suffix - 1) n
         else n)"

text \<open>
  The first lines of \<open>download_video\<close> and of \<open>download_multiple_videos\<close>: an output
  directory that is given and not empty is created, and \<open>mkdir\<close> may raise.
\<close>

definition setup_output_directory ::
  "env \<Rightarrow> string option \<Rightarrow> (error + pure_path) \<times> event list" where
  "setup_output_directory e output_dir =
     (case output_dir of
        None \<Rightarrow> (Inr (Path (getcwd e)), [])
      | Some d \<Rightarrow>
          if d = [] then (Inr (Path (getcwd e)), [])
          else (if mkdir_ok e (str_of_path (Path d)) then Inr (Path d) else Inl OSError,
                [MkDir (str_of_path (Path d))]))"

section \<open>fetch_meeting_data\<close>

text \<open>
  \<open>raise_for_status\<close> raises for a status from 400 to 599; a body that is not JSON makes
  \<open>response.json()\<close> raise a request exception. The messages are kept without the text of
  the underlying exception.
\<close>

definition fetch_meeting_data :: "env \<Rightarrow> string \<Rightarrow> string \<Rightarrow> (error + json) \<times> event list" where
  "fetch_meeting_data e meeting_id auth_token =
     (let api_url = ''https://gw.tldv.io/v1/meetings/'' @ meeting_id @
                    ''/watch-page?noTranscript=true''
      in (case http_get e api_url auth_token of
            RequestException \<Rightarrow> Inl (ValueError ''Network error'')
          | Response status body \<Rightarrow>
              if 400 \<le> status \<and> status < 600
              then (if status = 401 then Inl (ValueError ''Unauthorized: Invalid auth token'')
                    else if status = 404 then Inl (ValueError ''Meeting not found'')
                    else Inl (ValueError ''API error''))
              else (case body of
                      None \<Rightarrow> Inl (ValueError ''Network error'')
                    | Some data \<Rightarrow> Inr data),
          [HttpGet api_url auth_token]))"

section \<open>check_downloader_availability\<close>

record downloader =
  dname :: string
  cmd :: string
  preferred :: bool

definition n_m3u8dl_re :: downloader where
  "n_m3u8dl_re = \<lparr>dname = ''N_m3u8DL-RE'', cmd = ''N_m3u8DL-RE'', preferred = True\<rparr>"

definition ffmpeg :: downloader where
  "ffmpeg = \<lparr>dname = ''ffmpeg'', cmd = ''ffmpeg'', preferred = False\<rparr>"

definition downloaders :: "downloader list" where
  "downloaders = [n_m3u8dl_re, ffmpeg]"

text \<open>
  The loop over the candidates, with the list \<open>available\<close> it appends to and the probes
  made so far. A candidate is appended when its version check returns 0; a nonzero return
  code and each of the three caught exceptions leave it out and the loop goes on. Any
  other exception is not caught: it ends the loop and the call.
\<close>

fun probe_downloaders ::
  "env \<Rightarrow> downloader list \<Rightarrow> downloader list \<Rightarrow> event list
     \<Rightarrow> (error + downloader list) \<times> event list" where
  "probe_downloaders e [] available evs = (Inr available, evs)"
| "probe_downloaders e (d # ds) available evs =
     (case subprocess_run e [cmd d, ''--version''] of
        Completed returncode \<Rightarrow>
          if returncode = 0
          then probe_downloaders e ds (available @ [d]) (evs @ [Probe [cmd d, ''--version'']])
          else probe_downloaders e ds available (evs @ [Probe [cmd d, ''--version'']])
      | TimeoutExpired \<Rightarrow> probe_downloaders e ds available (evs @ [Probe [cmd d, ''--version'']])
      | FileNotFoundError \<Rightarrow> probe_downloaders e ds available (evs @ [Probe [cmd d, ''--version'']])
      | SubprocessError \<Rightarrow> probe_downloaders e ds available (evs @ [Probe [cmd d, ''--version'']])
      | OtherOSError \<Rightarrow> (Inl OSError, evs @ [Probe [cmd d, ''--version'']]))"

definition no_downloader_available :: error where
  "no_downloader_available =
     RuntimeError ''Neither N_m3u8DL-RE nor ffmpeg is available. Please install one of them.''"

definition check_downloader_availability :: "env \<Rightarrow> (error + downloader) \<times> event list" where
  "check_downloader_availability e =
     (case probe_downloaders e downloaders [] [] of
        (Inl err, evs) \<Rightarrow> (Inl err, evs)
      | (Inr available, evs) \<Rightarrow>
          (case available of
             [] \<Rightarrow> Inl no_downloader_available
           | first # _ \<Rightarrow>
               Inr (case find preferred available of None \<Rightarrow> first | Some d \<Rightarrow> d),
           evs))"

section \<open>Running the external tool\<close>

text \<open>
  The command is a list of Python objects: the source URL comes from the JSON payload
  and need not be a string, in which case \<open>subprocess.run\<close> raises \<open>TypeError\<close> before
  any process starts.
\<close>

fun argv_of :: "json list \<Rightarrow> string list option" where
  "argv_of [] = Some []"
| "argv_of (JStr s # xs) = map_option ((#) s) (argv_of xs)"
| "argv_of (_ # xs) = None"

text \<open>
  \<open>_run_download_command\<close>: \<open>True\<close> only in the branch where the return code is 0 and
  the output file exists; the timeout and every other exception give \<open>False\<close>.
\<close>

definition run_download_command ::
  "env \<Rightarrow> json list \<Rightarrow> pure_path \<Rightarrow> bool \<times> event list" where
  "run_download_command e command output_file =
     (case argv_of command of
        None \<Rightarrow> (False, [Started (str_of_path output_file)])
      | Some argv \<Rightarrow>
          (case subprocess_run e argv of
             Completed returncode \<Rightarrow>
               if returncode = 0
               then (if path_exists e (str_of_path output_file) then True else False)
               else False
           | TimeoutExpired \<Rightarrow> False
           | FileNotFoundError \<Rightarrow> False
           | SubprocessError \<Rightarrow> False
           | OtherOSError \<Rightarrow> False,
           [Started (str_of_path output_file), Spawn argv]))"

text \<open>The two command lines, as the lists that the source builds.\<close>

definition n_m3u8dl_re_command :: "json \<Rightarrow> pure_path \<Rightarrow> json list" where
  "n_m3u8dl_re_command src output_file =
     [JStr ''N_m3u8DL-RE'', src,
      JStr ''--save-name'', JStr (path_stem output_file),
      JStr ''--save-dir'', JStr (str_of_path (path_parent output_file)),
      JStr ''--thread-count'', JStr ''8'',
      JStr ''--download-retry-count'', JStr ''3'',
      JStr ''--auto-select'',
      JStr ''--no-log'']"

definition ffmpeg_command :: "json \<Rightarrow> pure_path \<Rightarrow> json list" where
  "ffmpeg_command src output_file =
     [JStr ''ffmpeg'', JStr ''-i'', src, JStr ''-c'', JStr ''copy'', JStr ''-y'',
      JStr (str_of_path output_file)]"

definition download_with_n_m3u8dl_re :: "env \<Rightarrow> json \<Rightarrow> pure_path \<Rightarrow> bool \<times> event list" where
  "download_with_n_m3u8dl_re e src output_file =
     run_download_command e (n_m3u8dl_re_command src output_file) output_file"

definition download_with_ffmpeg :: "env \<Rightarrow> json \<Rightarrow> pure_path \<Rightarrow> bool \<times> event list" where
  "download_with_ffmpeg e src output_file =
     run_download_command e (ffmpeg_command src output_file) output_file"

text \<open>\<open>save_metadata\<close> swallows every exception of the write, so it returns nothing.\<close>

definition save_metadata :: "json \<Rightarrow> pure_path \<Rightarrow> event list" where
  "save_metadata data filename = [WriteFile (str_of_path filename @ ''.json'')]"

section \<open>download_video\<close>

text \<open>
  The body of the \<open>try\<close> block. An exception raised by a step ends the block with the
  events so far.
\<close>

definition download_video_try ::
  "env \<Rightarrow> string \<Rightarrow> string \<Rightarrow> string option \<Rightarrow> (error + string option) \<times> event list" where
  "download_video_try e url auth_token0 output_dir =
     (case setup_output_directory e output_dir of
        (Inl err, ev1) \<Rightarrow> (Inl err, ev1)
      | (Inr output_path, ev1) \<Rightarrow>
     (case extract_meeting_id url of
        Inl err \<Rightarrow> (Inl err, ev1)
      | Inr meeting_id \<Rightarrow>
     (case fetch_meeting_data e meeting_id (prepare_auth_token auth_token0) of
        (Inl err, ev2) \<Rightarrow> (Inl err, ev1 @ ev2)
      | (Inr data, ev2) \<Rightarrow>
     (case parse_meeting_info (now_local e) data of
        Inl err \<Rightarrow> (Inl err, ev1 @ ev2)
      | Inr info \<Rightarrow>
     (let output_file = truediv output_path (timestamp info @ ''_'' @ name info @ ''.mp4'')
      in case check_downloader_availability e of
        (Inl err, ev3) \<Rightarrow> (Inl err, ev1 @ ev2 @ ev3)
      | (Inr tool, ev3) \<Rightarrow>
     (let metadata_name = timestamp info @ ''_'' @ name info;
          ev4 = save_metadata (full_data info) (truediv output_path metadata_name);
          (success, ev5) =
            (if dname tool = ''N_m3u8DL-RE''
             then download_with_n_m3u8dl_re e (source_url info) output_file
             else download_with_ffmpeg e (source_url info) output_file)
      in (Inr (if success then Some (str_of_path output_file) else None),
          ev1 @ ev2 @ ev3 @ ev4 @ ev5)))))))"

text \<open>
  The two handlers, \<open>except ValueError\<close> and \<open>except Exception\<close>, both return \<open>None\<close>.
\<close>

definition download_video ::
  "env \<Rightarrow> string \<Rightarrow> string \<Rightarrow> string option \<Rightarrow> (error + string option) \<times> event list" where
  "download_video e url auth_token output_dir =
     (case download_video_try e url auth_token output_dir of
        (Inl (ValueError m), evs) \<Rightarrow> (Inr None, evs)
      | (Inl err, evs) \<Rightarrow> (Inr None, evs)
      | (Inr result, evs) \<Rightarrow> (Inr result, evs))"

section \<open>download_multiple_videos\<close>

record download_outcome =
  success :: bool
  url :: string
  "file" :: "string option"
  error :: "string option"

fun str_of_error :: "error \<Rightarrow> string" where
  "str_of_error (ValueError m) = m"
| "str_of_error (RuntimeError m) = m"
| "str_of_error IndexError = ''list index out of range''"
| "str_of_error AttributeError = ''AttributeError''"
| "str_of_error TypeError = ''TypeError''"
| "str_of_error OSError = ''OSError''"

text \<open>
  The nested \<open>download_single\<close>, with the output path of the enclosing call. The path
  object is handed to \<open>download_video\<close> as its output directory; it is given here as its
  string, which is never empty and which parses back to the same path.
\<close>

definition download_single ::
  "env \<Rightarrow> pure_path \<Rightarrow> string \<times> string \<Rightarrow> download_outcome \<times> event list" where
  "download_single e output_path video_data =
     (case video_data of (u, auth_token) \<Rightarrow>
        (case download_video e u auth_token (Some (str_of_path output_path)) of
           (Inr (Some result), evs) \<Rightarrow>
             (if result \<noteq> []
              then \<lparr>success = True, url = u, file = Some result, error = None\<rparr>
              else \<lparr>success = False, url = u, file = None, error = Some ''Download failed''\<rparr>,
              evs)
         | (Inr None, evs) \<Rightarrow>
             (\<lparr>success = False, url = u, file = None, error = Some ''Download failed''\<rparr>, evs)
         | (Inl err, evs) \<Rightarrow>
             (\<lparr>success = False, url = u, file = None, error = Some (str_of_error err)\<rparr>, evs)))"

record batch =
  returned :: "error + download_outcome list option"
  successful_downloads :: "download_outcome list"
  failed_downloads :: "download_outcome list"
  events :: "event list"

text \<open>
  The value a call returns is \<open>returned\<close>: \<open>Inr (Some xs)\<close> for a list, \<open>Inr None\<close> for
  Python's \<open>None\<close>, which is what a function returns when it runs to its end without a
  \<open>return\<close> statement. The two lists are what the summary prints. The order in which
  \<open>as_completed\<close> yields the futures is the scheduler's, read from the environment as a
  list of task indices; the events of the tasks are listed in submission order.
  \<open>ThreadPoolExecutor\<close> raises \<open>ValueError\<close> for a pool size below 1.
\<close>

definition download_multiple_videos ::
  "env \<Rightarrow> (string \<times> string) list \<Rightarrow> string option \<Rightarrow> int \<Rightarrow> batch" where
  "download_multiple_videos e video_data_list output_dir max_workers =
     (if video_data_list = []
      then \<lparr>returned = Inr (Some []), successful_downloads = [], failed_downloads = [],
            events = []\<rparr>
      else
        (case setup_output_directory e output_dir of
           (Inl err, ev1) \<Rightarrow>
             \<lparr>returned = Inl err, successful_downloads = [], failed_downloads = [],
              events = ev1\<rparr>
         | (Inr output_path, ev1) \<Rightarrow>
             if max_workers \<le> 0
             then \<lparr>returned = Inl (ValueError ''max_workers must be greater than 0''),
                   successful_downloads = [], failed_downloads = [], events = ev1\<rparr>
             else
               (let runs = map (download_single e output_path) video_data_list;
                    n = length runs;
                    completed = map (\<lambda>i. fst (runs ! i))
                                  (filter (\<lambda>i. i < n) (completion_order e n))
                in \<lparr>returned = Inr None,
                    successful_downloads = filter success completed,
                    failed_downloads = filter (\<lambda>r. \<not> success r) completed,
                    events = ev1 @ concat (map snd runs)\<rparr>)))"

section \<open>Sample inputs\<close>

text \<open>
  A payload as the API returns it, a meeting URL, and an environment in which the HTTP
  request succeeds and neither external tool is installed.
\<close>

definition sample_payload :: json where
  "sample_payload =
     JObj [(''meeting'', JObj [(''name'', JStr ''Weekly: sync''),
                               (''createdAt'', JStr ''2024-03-15T10:30:00.000Z'')]),
           (''video'', JObj [(''source'', JStr ''https://media.example/stream.m3u8'')])]"

definition sample_url :: string where
  "sample_url = ''https://tldv.io/app/meetings/64f0c2a9b1d3e45f6a7b8c9d''"

definition env_without_tools :: env where
  "env_without_tools =
     \<lparr>now_local = \<lparr>year = 2026, month = 11, day = 3, hour = 9, minute = 5, second = 7,
                    microsecond = 0\<rparr>,
      getcwd = ''/home/user'',
      mkdir_ok = (\<lambda>d. True),
      http_get = (\<lambda>api_url auth. Response 200 (Some sample_payload)),
      subprocess_run = (\<lambda>argv. FileNotFoundError),
      path_exists = (\<lambda>p. False),
      completion_order = (\<lambda>n. [0..<n])\<rparr>"

text \<open>The same environment with both tools installed and every download succeeding.\<close>

definition env_with_tools :: env where
  "env_with_tools =
     env_without_tools\<lparr>subprocess_run := (\<lambda>argv. Completed 0), path_exists := (\<lambda>p. True)\<rparr>"

text \<open>
  The same again, except that the file found for \<open>ffmpeg\<close> is not executable, so that
  starting it raises \<open>PermissionError\<close>.
\<close>

definition env_broken_fallback :: env where
  "env_broken_fallback =
     env_with_tools\<lparr>subprocess_run :=
       (\<lambda>argv. if argv = [''ffmpeg'', ''--version''] then OtherOSError else Completed 0)\<rparr>"

section \<open>Properties of the string helpers\<close>

lemma split_not_Nil: "split sep s \<noteq> []"
  by (induction s) (auto split: list.splits)

lemma split_no_sep: "sep \<notin> set s \<Longrightarrow> split sep s = [s]"
  by (induction s) auto

lemma split_with_sep: "sep \<in> set s \<Longrightarrow> \<exists>a b ws. split sep s = a # b # ws"
proof (induction s)
  case Nil
  then show ?case by simp
next
  case (Cons c cs)
  show ?case
  proof (cases "c = sep")
    case True
    then show ?thesis using split_not_Nil [of sep cs] by (cases "split sep cs") auto
  next
    case False
    with Cons show ?thesis by auto
  qed
qed

lemma takeWhile_snoc_stop: "\<not> P y \<Longrightarrow> takeWhile P (xs @ [y]) = takeWhile P xs"
  by (induction xs) auto

text \<open>The last piece of a split is the longest suffix without the separator.\<close>

lemma last_split: "last (split sep s) = rev (takeWhile (\<lambda>c. c \<noteq> sep) (rev s))"
proof (induction s)
  case Nil
  then show ?case by simp
next
  case (Cons c cs)
  show ?case
  proof (cases "sep \<in> set cs")
    case True
    then obtain a b ws where sp: "split sep cs = a # b # ws"
      using split_with_sep by blast
    from True have "\<exists>x \<in> set (rev cs). \<not> x \<noteq> sep" by auto
    then have tw: "takeWhile (\<lambda>c. c \<noteq> sep) (rev cs @ [c]) = takeWhile (\<lambda>c. c \<noteq> sep) (rev cs)"
      by (metis (mono_tags, lifting) takeWhile_append1)
    from sp Cons.IH show ?thesis by (simp add: tw)
  next
    case False
    then have sp: "split sep cs = [cs]" by (rule split_no_sep)
    from False have tw: "takeWhile (\<lambda>c. c \<noteq> sep) (rev cs) = rev cs"
      by (auto intro: takeWhile_eq_all_conv [THEN iffD2])
    show ?thesis
    proof (cases "c = sep")
      case True
      then show ?thesis using sp by (simp add: takeWhile_snoc_stop tw)
    next
      case False
      with \<open>sep \<notin> set cs\<close>
      have tw2: "takeWhile (\<lambda>c. c \<noteq> sep) (rev cs @ [c]) = rev cs @ [c]"
        by (auto intro: takeWhile_eq_all_conv [THEN iffD2])
      from False sp show ?thesis by (simp add: tw2)
    qed
  qed
qed

lemma dropWhile_fixed: "s = [] \<or> \<not> p (hd s) \<Longrightarrow> dropWhile p s = s"
  by (cases s) auto

lemma strip_by_fixed:
  "s \<noteq> [] \<Longrightarrow> \<not> p (hd s) \<Longrightarrow> \<not> p (last s) \<Longrightarrow> strip_by p s = s"
  by (simp add: strip_by_def lstrip_by_def rstrip_by_def dropWhile_fixed hd_rev)

lemma dropWhile_snoc_keep: "\<not> p x \<Longrightarrow> \<exists>ys. dropWhile p (zs @ [x]) = ys @ [x]"
  by (induction zs) auto

lemma hd_rstrip_by: "s \<noteq> [] \<Longrightarrow> \<not> p (hd s) \<Longrightarrow> hd (rstrip_by p s) = hd s"
proof -
  assume "s \<noteq> []" and nh: "\<not> p (hd s)"
  then obtain x xs where s: "s = x # xs" by (cases s) auto
  with nh obtain ys where "dropWhile p (rev xs @ [x]) = ys @ [x]"
    using dropWhile_snoc_keep [of p x "rev xs"] by auto
  with s show ?thesis by (simp add: rstrip_by_def)
qed

text \<open>What is left after stripping neither starts nor ends with a stripped character.\<close>

lemma strip_by_ends:
  assumes "strip_by p s \<noteq> []"
  shows "\<not> p (hd (strip_by p s))" and "\<not> p (last (strip_by p s))"
proof -
  let ?l = "dropWhile p s"
  from assms have ne: "dropWhile p (rev ?l) \<noteq> []"
    by (simp add: strip_by_def lstrip_by_def rstrip_by_def)
  have lne: "?l \<noteq> []"
  proof
    assume a: "?l = []"
    have "dropWhile p (rev ?l) = []" unfolding a by simp
    with ne show False by contradiction
  qed
  then have nh: "\<not> p (hd ?l)" by (rule hd_dropWhile)
  show "\<not> p (last (strip_by p s))"
    using ne by (simp add: strip_by_def lstrip_by_def rstrip_by_def last_rev hd_dropWhile)
  show "\<not> p (hd (strip_by p s))"
    using hd_rstrip_by [of "dropWhile p s" p, OF lne nh] nh by (simp add: strip_by_def lstrip_by_def)
qed

lemma strip_by_idem: "strip_by p (strip_by p s) = strip_by p s"
proof (cases "strip_by p s = []")
  case True
  have "strip_by p [] = []" by (simp add: strip_by_def lstrip_by_def rstrip_by_def)
  with True show ?thesis by simp
next
  case False
  then show ?thesis using strip_by_ends [OF False] by (intro strip_by_fixed)
qed

lemma set_strip_by: "set (strip_by p s) \<subseteq> set s"
proof -
  have "set (strip_by p s) \<subseteq> set (dropWhile p s)"
    unfolding strip_by_def lstrip_by_def rstrip_by_def
    using set_dropWhileD [of _ p "rev (dropWhile p s)"] by auto
  also have "\<dots> \<subseteq> set s" by (rule set_dropWhileD [THEN subsetI])
  finally show ?thesis .
qed

section \<open>sanitize_filename: what holds and what does not\<close>

lemma replace_invalid_clean: "set (replace_invalid s) \<inter> set invalid_chars = {}"
  by (auto simp: replace_invalid_def invalid_chars_def)

lemma set_collapse_underscores: "set (collapse_underscores s) \<subseteq> set s"
proof (induction s rule: collapse_underscores.induct)
  case (3 c d cs)
  show ?case
  proof (cases "c = CHR ''_'' \<and> d = CHR ''_''")
    case True
    with 3 have "set (collapse_underscores (dropWhile (\<lambda>x. x = CHR ''_'') cs))
                   \<subseteq> set (dropWhile (\<lambda>x. x = CHR ''_'') cs)" by simp
    also have "\<dots> \<subseteq> set cs" by (rule set_dropWhileD [THEN subsetI])
    finally show ?thesis using True by auto
  next
    case False
    with 3 show ?thesis by auto
  qed
qed simp_all

text \<open>None of the nine characters survives, whatever the input.\<close>

lemma sanitize_filename_valid_chars: "set (sanitize_filename s) \<inter> set invalid_chars = {}"
proof -
  let ?t = "strip_chars ''_ '' (collapse_underscores (replace_invalid s))"
  have sub: "set ?t \<subseteq> set (replace_invalid s)"
    unfolding strip_chars_def using set_strip_by set_collapse_underscores by blast
  then have t: "set ?t \<inter> set invalid_chars = {}" using replace_invalid_clean [of s] by blast
  have tk: "set (take 100 ?t) \<inter> set invalid_chars = {}"
    using t set_take_subset [of 100 ?t] by blast
  have d: "set ''TLDV_Meeting'' \<inter> set invalid_chars = {}"
    by (simp add: invalid_chars_def)
  show ?thesis
    unfolding sanitize_filename_def Let_def using t tk d by (auto split: if_splits)
qed

lemma sanitize_filename_length: "length (sanitize_filename s) \<le> 100"
  by (simp add: sanitize_filename_def Let_def)

lemma sanitize_filename_nonempty: "sanitize_filename s \<noteq> []"
  by (simp add: sanitize_filename_def Let_def)

lemma sanitize_filename_empty: "sanitize_filename [] = ''TLDV_Meeting''"
  by (simp add: sanitize_filename_def replace_invalid_def strip_chars_def strip_by_def
      lstrip_by_def rstrip_by_def)

text \<open>The recursive test finds exactly the strings with two adjacent underscores.\<close>

lemma double_underscore_iff:
  "double_underscore s \<longleftrightarrow> (\<exists>xs ys. s = xs @ CHR ''_'' # CHR ''_'' # ys)"
proof (induction s rule: double_underscore.induct)
  case (1 c d cs)
  show ?case
  proof
    assume "double_underscore (c # d # cs)"
    then consider "c = CHR ''_'' \<and> d = CHR ''_''" | "double_underscore (d # cs)" by auto
    then show "\<exists>xs ys. c # d # cs = xs @ CHR ''_'' # CHR ''_'' # ys"
    proof cases
      case 1
      then have "c # d # cs = [] @ CHR ''_'' # CHR ''_'' # cs" by simp
      then show ?thesis by blast
    next
      case 2
      with "1.IH" obtain xs ys where "d # cs = xs @ CHR ''_'' # CHR ''_'' # ys" by auto
      then have "c # d # cs = (c # xs) @ CHR ''_'' # CHR ''_'' # ys" by simp
      then show ?thesis by blast
    qed
  next
    assume "\<exists>xs ys. c # d # cs = xs @ CHR ''_'' # CHR ''_'' # ys"
    then obtain xs ys where e: "c # d # cs = xs @ CHR ''_'' # CHR ''_'' # ys" by blast
    show "double_underscore (c # d # cs)"
    proof (cases xs)
      case Nil
      with e show ?thesis by simp
    next
      case (Cons x xs')
      with e have "d # cs = xs' @ CHR ''_'' # CHR ''_'' # ys" by simp
      with "1.IH" have "double_underscore (d # cs)" by blast
      then show ?thesis by simp
    qed
  qed
qed (auto simp: Cons_eq_append_conv)

lemma double_underscore_infix:
  "double_underscore r \<Longrightarrow> double_underscore (a @ r @ b)"
proof -
  assume "double_underscore r"
  then obtain xs ys where "r = xs @ CHR ''_'' # CHR ''_'' # ys"
    by (auto simp: double_underscore_iff)
  then have "a @ r @ b = (a @ xs) @ CHR ''_'' # CHR ''_'' # (ys @ b)" by simp
  then show ?thesis unfolding double_underscore_iff by blast
qed

lemma strip_by_infix: "\<exists>a b. s = a @ strip_by p s @ b"
proof -
  let ?l = "dropWhile p s"
  have 1: "s = takeWhile p s @ ?l" by simp
  have 2: "?l = rev (dropWhile p (rev ?l)) @ rev (takeWhile p (rev ?l))"
    by (metis rev_append rev_rev_ident takeWhile_dropWhile_id)
  have "s = takeWhile p s @ strip_by p s @ rev (takeWhile p (rev ?l))"
    unfolding strip_by_def lstrip_by_def rstrip_by_def using 1 2 by metis
  then show ?thesis by blast
qed

lemma double_underscore_cons:
  "\<not> double_underscore r \<Longrightarrow> r = [] \<or> hd r \<noteq> CHR ''_'' \<or> c \<noteq> CHR ''_'' \<Longrightarrow>
   \<not> double_underscore (c # r)"
  by (cases r) auto

lemma collapse_underscores_shape:
  "\<not> double_underscore (collapse_underscores s)
   \<and> (collapse_underscores s = [] \<longleftrightarrow> s = [])
   \<and> (s \<noteq> [] \<longrightarrow> hd (collapse_underscores s) = hd s)"
proof (induction s rule: collapse_underscores.induct)
  case 1
  then show ?case by simp
next
  case (2 c)
  then show ?case by simp
next
  case (3 c d cs)
  show ?case
  proof (cases "c = CHR ''_'' \<and> d = CHR ''_''")
    case True
    let ?rest = "dropWhile (\<lambda>x. x = CHR ''_'') cs"
    from 3 True have ih: "\<not> double_underscore (collapse_underscores ?rest)"
      "collapse_underscores ?rest = [] \<longleftrightarrow> ?rest = []"
      "?rest \<noteq> [] \<longrightarrow> hd (collapse_underscores ?rest) = hd ?rest"
      by simp_all
    have "?rest \<noteq> [] \<longrightarrow> hd ?rest \<noteq> CHR ''_''"
      using hd_dropWhile [of "\<lambda>x. x = CHR ''_''" cs] by simp
    with ih have "collapse_underscores ?rest = [] \<or> hd (collapse_underscores ?rest) \<noteq> CHR ''_''"
      by auto
    with ih(1) have "\<not> double_underscore (CHR ''_'' # collapse_underscores ?rest)"
      by (intro double_underscore_cons) auto
    moreover have "collapse_underscores (c # d # cs) = CHR ''_'' # collapse_underscores ?rest"
      using True by simp
    ultimately show ?thesis using True by simp
  next
    case False
    with 3 have ih: "\<not> double_underscore (collapse_underscores (d # cs))"
      "hd (collapse_underscores (d # cs)) = d"
      by simp_all
    from False ih(2) have "hd (collapse_underscores (d # cs)) \<noteq> CHR ''_'' \<or> c \<noteq> CHR ''_''"
      by auto
    with ih(1) have "\<not> double_underscore (c # collapse_underscores (d # cs))"
      by (intro double_underscore_cons) auto
    moreover have "collapse_underscores (c # d # cs) = c # collapse_underscores (d # cs)"
      using False by auto
    ultimately show ?thesis by simp
  qed
qed

text \<open>No run of two or more underscores is left, whatever the input.\<close>

lemma sanitize_filename_no_double_underscore: "\<not> double_underscore (sanitize_filename s)"
proof -
  let ?c = "collapse_underscores (replace_invalid s)"
  let ?t = "strip_chars ''_ '' ?c"
  have c: "\<not> double_underscore ?c" using collapse_underscores_shape by blast
  obtain a b where "?c = a @ ?t @ b"
    unfolding strip_chars_def using strip_by_infix by blast
  with c double_underscore_infix [of ?t a b] have t: "\<not> double_underscore ?t" by auto
  have "?t = [] @ take 100 ?t @ drop 100 ?t" by simp
  with t double_underscore_infix [of "take 100 ?t" "[]" "drop 100 ?t"]
  have tk: "\<not> double_underscore (take 100 ?t)" by auto
  have d: "\<not> double_underscore ''TLDV_Meeting''" by simp
  show ?thesis
    unfolding sanitize_filename_def Let_def using t tk d by (auto split: if_splits)
qed

text \<open>The result never starts with an underscore or a space.\<close>

lemma sanitize_filename_leading:
  "hd (sanitize_filename s) \<noteq> CHR ''_'' \<and> hd (sanitize_filename s) \<noteq> CHR '' ''"
proof -
  let ?t = "strip_chars ''_ '' (collapse_underscores (replace_invalid s))"
  show ?thesis
  proof (cases "?t = []")
    case True
    then show ?thesis by (simp add: sanitize_filename_def Let_def)
  next
    case False
    then have "hd ?t \<notin> set ''_ ''"
      unfolding strip_chars_def by (rule strip_by_ends(1))
    moreover have "hd (take 100 ?t) = hd ?t" using False by (cases ?t) auto
    ultimately show ?thesis using False
      by (auto simp: sanitize_filename_def Let_def)
  qed
qed

text \<open>
  It does not end with one either, as long as the stripped name has at most 100
  characters, so that nothing is cut off.
\<close>

lemma sanitize_filename_trailing_short:
  assumes "length (strip_chars ''_ '' (collapse_underscores (replace_invalid s))) \<le> 100"
  shows "last (sanitize_filename s) \<noteq> CHR ''_'' \<and> last (sanitize_filename s) \<noteq> CHR '' ''"
proof -
  let ?t = "strip_chars ''_ '' (collapse_underscores (replace_invalid s))"
  show ?thesis
  proof (cases "?t = []")
    case True
    then show ?thesis by (simp add: sanitize_filename_def Let_def)
  next
    case False
    then have "last ?t \<notin> set ''_ ''"
      unfolding strip_chars_def by (rule strip_by_ends(2))
    then show ?thesis using False assms
      by (auto simp: sanitize_filename_def Let_def)
  qed
qed

text \<open>
  Claim C3, at the input made of 99 letters \<open>a\<close> followed by \<open>_b\<close>: the name is 101
  characters long, stripping leaves it as it is, and the cut to 100 characters, made after
  the stripping, ends the result with the underscore.
\<close>

theorem sanitize_filename_trailing_underscore:
  "sanitize_filename (replicate 99 (CHR ''a'') @ ''_b'') = replicate 99 (CHR ''a'') @ ''_''
   \<and> last (sanitize_filename (replicate 99 (CHR ''a'') @ ''_b'')) = CHR ''_''"
proof -
  have "sanitize_filename (replicate 99 (CHR ''a'') @ ''_b'') = replicate 99 (CHR ''a'') @ ''_''"
    by code_simp
  then show ?thesis by simp
qed

section \<open>extract_meeting_id\<close>

text \<open>
  Claim C4: with \<open>u\<close> the URL without surrounding whitespace and trailing slashes, the
  split of \<open>u\<close> at the slashes is never empty, its last piece is the part of \<open>u\<close> after
  the last slash, and \<open>extract_meeting_id\<close> returns that piece when it has at least 10
  characters and fails with the invalid-meeting-id error otherwise.
\<close>

theorem extract_meeting_id_final_segment:
  "(let u = rstrip_chars ''/'' (strip raw_url);
        seg = last (split CHR ''/'' u)
    in split CHR ''/'' u \<noteq> []
     \<and> seg = rev (takeWhile (\<lambda>c. c \<noteq> CHR ''/'') (rev u))
     \<and> extract_meeting_id raw_url =
         (if 10 \<le> length seg then Inr seg else Inl (invalid_meeting_id u)))"
proof -
  define u where "u = rstrip_chars ''/'' (strip raw_url)"
  obtain w ws where sp: "split CHR ''/'' u = w # ws"
    using split_not_Nil [of "CHR ''/''" u] by (cases "split CHR ''/'' u") auto
  have seg: "last (split CHR ''/'' u) = rev (takeWhile (\<lambda>c. c \<noteq> CHR ''/'') (rev u))"
    by (rule last_split)
  have "extract_meeting_id raw_url =
         (if 10 \<le> length (last (split CHR ''/'' u)) then Inr (last (split CHR ''/'' u))
          else Inl (invalid_meeting_id u))"
    using sp unfolding extract_meeting_id_def extract_meeting_id_try_def u_def [symmetric] Let_def
    by (simp add: not_less)
  with seg sp show ?thesis
    unfolding Let_def u_def [symmetric] by simp
qed

section \<open>prepare_auth_token\<close>

lemma isspace_B: "\<not> isspace CHR ''B''"
  by (simp add: isspace_def)

lemma prepare_auth_token_prefixed:
  assumes "strip t \<noteq> []"
  shows "startswith (prepare_auth_token t) ''Bearer '' \<or> startswith (prepare_auth_token t) ''bearer ''"
    and "strip (prepare_auth_token t) = prepare_auth_token t"
proof -
  show "startswith (prepare_auth_token t) ''Bearer '' \<or> startswith (prepare_auth_token t) ''bearer ''"
    by (auto simp: prepare_auth_token_def Let_def startswith_def)
  from assms have e: "\<not> isspace (hd (strip t))" "\<not> isspace (last (strip t))"
    using strip_by_ends [of isspace t] by (simp_all add: strip_def)
  show "strip (prepare_auth_token t) = prepare_auth_token t"
  proof (cases "\<not> startswith (strip t) ''Bearer '' \<and> \<not> startswith (strip t) ''bearer ''")
    case True
    then have p: "prepare_auth_token t = ''Bearer '' @ strip t"
      by (simp add: prepare_auth_token_def)
    have "strip_by isspace (''Bearer '' @ strip t) = ''Bearer '' @ strip t"
      using assms e isspace_B by (intro strip_by_fixed) simp_all
    with p show ?thesis by (simp add: strip_def)
  next
    case False
    then have p: "prepare_auth_token t = strip t"
      by (auto simp add: prepare_auth_token_def)
    show ?thesis unfolding p using strip_by_idem [of isspace t] by (simp add: strip_def)
  qed
qed

text \<open>
  Claim C5 as stated fails at the empty token: the first call returns the prefix with its
  trailing space, the second call strips that space, no longer finds the prefix and adds
  it again.
\<close>

theorem prepare_auth_token_not_idempotent:
  "prepare_auth_token (prepare_auth_token []) \<noteq> prepare_auth_token []"
  by (simp add: prepare_auth_token_def strip_def strip_by_def lstrip_by_def rstrip_by_def
      isspace_def startswith_def)

text \<open>
  Claim C5, amended: \<open>prepare_auth_token\<close> returns the trimmed token when that starts
  with \<open>Bearer \<close> or \<open>bearer \<close> and the trimmed token with \<open>Bearer \<close> in front otherwise;
  the three examples hold; and for every token that is not made of whitespace only, a
  second application changes nothing.
\<close>

theorem prepare_auth_token_spec:
  assumes "strip t \<noteq> []"
  shows "prepare_auth_token t =
           (if startswith (strip t) ''Bearer '' \<or> startswith (strip t) ''bearer ''
            then strip t else ''Bearer '' @ strip t)
         \<and> prepare_auth_token ''abc'' = ''Bearer abc''
         \<and> prepare_auth_token ''Bearer abc'' = ''Bearer abc''
         \<and> prepare_auth_token ''bearer abc'' = ''bearer abc''
         \<and> prepare_auth_token (prepare_auth_token t) = prepare_auth_token t"
proof -
  have a: "prepare_auth_token t =
           (if startswith (strip t) ''Bearer '' \<or> startswith (strip t) ''bearer ''
            then strip t else ''Bearer '' @ strip t)"
    by (simp add: prepare_auth_token_def)
  have ev: "strip ''abc'' = ''abc''" "strip ''Bearer abc'' = ''Bearer abc''"
    "strip ''bearer abc'' = ''bearer abc''"
    by (simp_all add: strip_def strip_by_def lstrip_by_def rstrip_by_def isspace_def)
  have b: "prepare_auth_token ''abc'' = ''Bearer abc''"
    and c: "prepare_auth_token ''Bearer abc'' = ''Bearer abc''"
    and d: "prepare_auth_token ''bearer abc'' = ''bearer abc''"
    by (simp_all add: prepare_auth_token_def ev startswith_def)
  have e: "prepare_auth_token (prepare_auth_token t) = prepare_auth_token t"
    using prepare_auth_token_prefixed [OF assms]
    by (subst (1) prepare_auth_token_def) (auto simp: Let_def)
  from a b c d e show ?thesis by blast
qed

text \<open>Claim C5, amended, at the token \<open>abc\<close> with a space on each side.\<close>

theorem prepare_auth_token_spec_witness:
  "strip '' abc '' \<noteq> []
   \<and> prepare_auth_token (prepare_auth_token '' abc '') = prepare_auth_token '' abc ''"
proof -
  have h: "strip '' abc '' \<noteq> []"
    by (simp add: strip_def strip_by_def lstrip_by_def rstrip_by_def isspace_def)
  from prepare_auth_token_spec [OF h] show ?thesis using h by blast
qed

section \<open>parse_meeting_info\<close>

lemmas matcher_defs = one_of_def seq_def alt_def digit_def nonzero_def re_Y_def re_m_def re_d_def
  re_H_def re_M_def re_S_def re_f_def lower_def iso_format_def

lemma run_pattern_example:
  "run_pattern iso_format ''2024-03-15T10:30:00.000Z'' =
     [([''2024'', ''03'', ''15'', ''10'', ''30'', ''00'', ''000''], [])]"
  by (simp add: matcher_defs)

lemma strptime_example:
  "strptime ''2024-03-15T10:30:00.000Z'' =
     Some \<lparr>year = 2024, month = 3, day = 15, hour = 10, minute = 30, second = 0,
            microsecond = 0\<rparr>"
  by (simp add: strptime_def run_pattern_example int_of_field_def digit_value_def strip_def
      strip_by_def lstrip_by_def rstrip_by_def isspace_def days_in_month_def is_leap_def
      eval_nat_numeral)

lemma strftime_example:
  "strftime \<lparr>year = 2024, month = 3, day = 15, hour = 10, minute = 30, second = 0,
             microsecond = 0\<rparr> = ''2024-03-15_10-30-00''"
  by (simp add: strftime_def pad2_def digit_char_def decimal.simps [of 2024]
      decimal.simps [of 202] decimal.simps [of 20] decimal.simps [of 2])

lemma sanitize_sample: "sanitize_filename ''Weekly: sync'' = ''Weekly_ sync''"
  by (simp add: sanitize_filename_def replace_invalid_def invalid_chars_def strip_chars_def
      strip_by_def lstrip_by_def rstrip_by_def)

text \<open>The example of the specification: the timestamp of a well-formed creation date.\<close>

lemma parse_meeting_info_sample:
  "parse_meeting_info now sample_payload =
     Inr \<lparr>name = ''Weekly_ sync'', timestamp = ''2024-03-15_10-30-00'',
          source_url = JStr ''https://media.example/stream.m3u8'', full_data = sample_payload\<rparr>"
  unfolding sample_payload_def
  by (simp add: parse_meeting_info_def parse_date_def strptime_example strftime_example
      sanitize_sample)

text \<open>
  A creation date that is a string never fails: it is parsed, or the current time stands
  in for it, as it does for a date that is absent or otherwise false.
\<close>

lemma strptime_empty: "strptime [] = None"
  by (simp add: strptime_def matcher_defs)

lemma parse_date_string:
  "parse_date now (JStr s) = Inr (case strptime s of None \<Rightarrow> now | Some d \<Rightarrow> d)"
  by (cases "s = []") (simp_all add: parse_date_def strptime_empty split: option.splits)

lemma parse_date_falsy: "\<not> truthy c \<Longrightarrow> parse_date now c = Inr now"
  by (simp add: parse_date_def)

lemma parse_date_error: "parse_date now c = Inl err \<Longrightarrow> err = TypeError"
  by (auto simp: parse_date_def split: if_splits json.splits option.splits)

text \<open>
  Claim C7, at a payload whose creation date is a number (milliseconds since the epoch):
  \<open>strptime\<close> raises \<open>TypeError\<close>, the handler around it catches \<open>ValueError\<close> only, and
  \<open>parse_meeting_info\<close> fails although the source URL is there.
\<close>

theorem parse_meeting_info_numeric_createdAt:
  "parse_meeting_info now
     (JObj [(''meeting'', JObj [(''name'', JStr ''Weekly sync''),
                               (''createdAt'', JNum 1710498600000)]),
            (''video'', JObj [(''source'', JStr ''https://media.example/stream.m3u8'')])])
   = Inl TypeError"
  by (simp add: parse_meeting_info_def parse_date_def)

text \<open>
  What \<open>parse_meeting_info\<close> does on a payload of the expected shape: \<open>meeting\<close> and
  \<open>video\<close> absent or objects, the name absent or a string, the creation date absent,
  false or a string. It fails with the missing-source error when \<open>video.source\<close> is
  absent or false in Python's sense, and otherwise returns the record with that source,
  unchanged.
\<close>

lemma parse_date_typed:
  assumes "\<not> truthy c \<or> (\<exists>s. c = JStr s)"
  shows "parse_date now c =
           Inr (case c of JStr s \<Rightarrow> (case strptime s of None \<Rightarrow> now | Some d \<Rightarrow> d) | _ \<Rightarrow> now)"
proof (cases "\<exists>s. c = JStr s")
  case True
  then obtain s where "c = JStr s" by blast
  then show ?thesis by (simp add: parse_date_string)
next
  case False
  with assms have "\<not> truthy c" by blast
  then have "parse_date now c = Inr now" by (rule parse_date_falsy)
  with False show ?thesis by (cases c) auto
qed

lemma parse_meeting_info_typed:
  assumes m: "map_of kvs ''meeting'' = None \<and> ms = [] \<or> map_of kvs ''meeting'' = Some (JObj ms)"
      and v: "map_of kvs ''video'' = None \<and> vs = [] \<or> map_of kvs ''video'' = Some (JObj vs)"
      and n: "map_of ms ''name'' = None \<and> n = ''TLDV_Meeting'' \<or> map_of ms ''name'' = Some (JStr n)"
      and c: "map_of ms ''createdAt'' = None \<and> c = JNull \<or> map_of ms ''createdAt'' = Some c"
      and ct: "\<not> truthy c \<or> (\<exists>s. c = JStr s)"
  shows "parse_meeting_info now (JObj kvs) =
           (case map_of vs ''source'' of
              None \<Rightarrow> Inl missing_source_url
            | Some src \<Rightarrow>
                if truthy src
                then Inr \<lparr>name = sanitize_filename n,
                          timestamp = strftime
                            (case c of
                               JStr s \<Rightarrow> (case strptime s of None \<Rightarrow> now | Some d \<Rightarrow> d)
                             | _ \<Rightarrow> now),
                          source_url = src, full_data = JObj kvs\<rparr>
                else Inl missing_source_url)"
proof -
  from m have pm: "py_get (JObj kvs) ''meeting'' (JObj []) = Inr (JObj ms)" by auto
  from v have pv: "py_get (JObj kvs) ''video'' (JObj []) = Inr (JObj vs)" by auto
  from n have pn: "py_get (JObj ms) ''name'' (JStr ''TLDV_Meeting'') = Inr (JStr n)" by auto
  from c have pc: "py_get (JObj ms) ''createdAt'' JNull = Inr c" by auto
  have ps: "py_get (JObj vs) ''source'' JNull =
              Inr (case map_of vs ''source'' of None \<Rightarrow> JNull | Some x \<Rightarrow> x)"
    by simp
  note pd = parse_date_typed [OF ct, of now]
  show ?thesis
    by (simp add: parse_meeting_info_def pm pv pn pc ps pd del: py_get.simps
        split: option.splits)
qed

text \<open>
  Claim C6, at the payload whose \<open>video\<close> member is \<open>null\<close>: the key is there, so the
  default of \<open>data.get("video", {})\<close> is not used, \<open>None.get\<close> raises \<open>AttributeError\<close>,
  and the failure is not the missing-source error although there is no \<open>video.source\<close>.
\<close>

theorem parse_meeting_info_null_video:
  "parse_meeting_info
     \<lparr>year = 2026, month = 11, day = 3, hour = 9, minute = 5, second = 7, microsecond = 0\<rparr>
     (JObj [(''video'', JNull)]) = Inl AttributeError
   \<and> Inl AttributeError \<noteq> (Inl missing_source_url :: error + meeting_info)"
  by (simp add: parse_meeting_info_def missing_source_url_def)

section \<open>check_downloader_availability\<close>

lemma check_downloader_availability_events:
  "x \<in> set (snd (check_downloader_availability e)) \<Longrightarrow> \<exists>a. x = Probe a"
  by (auto simp: check_downloader_availability_def downloaders_def n_m3u8dl_re_def ffmpeg_def
      split: run_result.splits if_splits)

text \<open>
  The result in terms of the two version checks: an exception that is not caught ends
  the call, also after a primary tool that answered.
\<close>

lemma check_downloader_availability_result:
  "fst (check_downloader_availability e) =
     (if subprocess_run e [''N_m3u8DL-RE'', ''--version''] = OtherOSError
         \<or> subprocess_run e [''ffmpeg'', ''--version''] = OtherOSError then Inl OSError
      else if subprocess_run e [''N_m3u8DL-RE'', ''--version''] = Completed 0 then Inr n_m3u8dl_re
      else if subprocess_run e [''ffmpeg'', ''--version''] = Completed 0 then Inr ffmpeg
      else Inl no_downloader_available)"
  by (auto simp: check_downloader_availability_def downloaders_def n_m3u8dl_re_def ffmpeg_def
      split: run_result.splits)

text \<open>
  When neither version check raises an exception outside the three that are caught, the
  selection is as the specification describes it.
\<close>

lemma check_downloader_availability_caught:
  assumes "subprocess_run e [''N_m3u8DL-RE'', ''--version''] \<noteq> OtherOSError"
      and "subprocess_run e [''ffmpeg'', ''--version''] \<noteq> OtherOSError"
  shows "fst (check_downloader_availability e) = Inr n_m3u8dl_re
           \<longleftrightarrow> subprocess_run e [''N_m3u8DL-RE'', ''--version''] = Completed 0"
    and "fst (check_downloader_availability e) = Inr ffmpeg
           \<longleftrightarrow> subprocess_run e [''N_m3u8DL-RE'', ''--version''] \<noteq> Completed 0
               \<and> subprocess_run e [''ffmpeg'', ''--version''] = Completed 0"
    and "fst (check_downloader_availability e) = Inl no_downloader_available
           \<longleftrightarrow> subprocess_run e [''N_m3u8DL-RE'', ''--version''] \<noteq> Completed 0
               \<and> subprocess_run e [''ffmpeg'', ''--version''] \<noteq> Completed 0"
    and "snd (check_downloader_availability e) =
           [Probe [''N_m3u8DL-RE'', ''--version''], Probe [''ffmpeg'', ''--version'']]"
  using assms
  by (auto simp: check_downloader_availability_def downloaders_def n_m3u8dl_re_def ffmpeg_def
      no_downloader_available_def split: run_result.splits)

lemma check_downloader_availability_none:
  assumes "subprocess_run e [''N_m3u8DL-RE'', ''--version''] \<noteq> Completed 0"
      and "subprocess_run e [''ffmpeg'', ''--version''] \<noteq> Completed 0"
  shows "\<exists>err. fst (check_downloader_availability e) = Inl err"
  using assms by (simp add: check_downloader_availability_result)

text \<open>
  Claim C8, in the environment where the primary tool answers its version check with 0
  and starting the fallback raises \<open>PermissionError\<close>: the exception leaves the loop and
  the call, and the primary tool is not returned.
\<close>

theorem check_downloader_availability_uncaught:
  "subprocess_run env_broken_fallback [''N_m3u8DL-RE'', ''--version''] = Completed 0
   \<and> subprocess_run env_broken_fallback [''ffmpeg'', ''--version''] = OtherOSError
   \<and> check_downloader_availability env_broken_fallback =
       (Inl OSError, [Probe [''N_m3u8DL-RE'', ''--version''], Probe [''ffmpeg'', ''--version'']])"
  by (simp add: check_downloader_availability_def downloaders_def n_m3u8dl_re_def ffmpeg_def
      env_broken_fallback_def env_with_tools_def)

section \<open>download_video\<close>

lemma setup_output_directory_events:
  "x \<in> set (snd (setup_output_directory e d)) \<Longrightarrow> \<exists>p. x = MkDir p"
  by (auto simp: setup_output_directory_def split: option.splits if_splits)

lemma fetch_meeting_data_events:
  "x \<in> set (snd (fetch_meeting_data e i t)) \<Longrightarrow> \<exists>a b. x = HttpGet a b"
  by (simp add: fetch_meeting_data_def Let_def)

text \<open>
  The external tool reports success exactly when a process was started, it returned 0 and
  the output file is there afterwards.
\<close>

lemma run_download_command_result:
  "fst (run_download_command e c f) \<longleftrightarrow>
     (\<exists>argv. argv_of c = Some argv \<and> subprocess_run e argv = Completed 0
            \<and> path_exists e (str_of_path f))"
  by (auto simp: run_download_command_def split: option.splits run_result.splits)

lemma run_download_command_events:
  "snd (run_download_command e c f) =
     Started (str_of_path f) # (case argv_of c of None \<Rightarrow> [] | Some argv \<Rightarrow> [Spawn argv])"
  by (simp add: run_download_command_def split: option.splits)

text \<open>
  When the directory, the meeting identifier, the request, the payload and the tool
  selection all succeed, the block writes the metadata, runs the command of the selected
  tool, and its value is the path of the media file or \<open>None\<close> as that command decides.
\<close>

lemma download_video_try_ran:
  assumes "fst (setup_output_directory e d) = Inr output_path"
      and "extract_meeting_id u = Inr meeting_id"
      and "fst (fetch_meeting_data e meeting_id (prepare_auth_token t)) = Inr data"
      and "parse_meeting_info (now_local e) data = Inr info"
      and "fst (check_downloader_availability e) = Inr tool"
      and f: "f = truediv output_path (timestamp info @ ''_'' @ name info @ ''.mp4'')"
      and c: "c = (if dname tool = ''N_m3u8DL-RE''
                   then n_m3u8dl_re_command (source_url info) f
                   else ffmpeg_command (source_url info) f)"
  shows "download_video_try e u t d =
           (Inr (if fst (run_download_command e c f) then Some (str_of_path f) else None),
            (snd (setup_output_directory e d)
             @ snd (fetch_meeting_data e meeting_id (prepare_auth_token t))
             @ snd (check_downloader_availability e)
             @ [WriteFile (str_of_path (truediv output_path (timestamp info @ ''_'' @ name info))
                           @ ''.json'')])
            @ snd (run_download_command e c f))"
proof -
  obtain ev1 where s1: "setup_output_directory e d = (Inr output_path, ev1)"
    using assms(1) by (cases "setup_output_directory e d") auto
  obtain ev2 where s3: "fetch_meeting_data e meeting_id (prepare_auth_token t) = (Inr data, ev2)"
    using assms(3) by (cases "fetch_meeting_data e meeting_id (prepare_auth_token t)") auto
  obtain ev3 where s5: "check_downloader_availability e = (Inr tool, ev3)"
    using assms(5) by (cases "check_downloader_availability e") auto
  show ?thesis
    by (simp add: download_video_try_def s1 assms(2) s3 assms(4) s5 Let_def f c
        download_with_n_m3u8dl_re_def download_with_ffmpeg_def save_metadata_def
        split: prod.splits)
qed

text \<open>
  Otherwise the block stops at an exception, having only created the directory, sent the
  request and probed the tools.
\<close>

lemma download_video_try_cases:
  obtains
    (failed) err evs where "download_video_try e u t d = (Inl err, evs)"
      and "\<And>x. x \<in> set evs \<Longrightarrow> (\<exists>p. x = MkDir p) \<or> (\<exists>a b. x = HttpGet a b) \<or> (\<exists>a. x = Probe a)"
      and "\<And>output_path meeting_id data info tool.
             \<not> (fst (setup_output_directory e d) = Inr output_path
                \<and> extract_meeting_id u = Inr meeting_id
                \<and> fst (fetch_meeting_data e meeting_id (prepare_auth_token t)) = Inr data
                \<and> parse_meeting_info (now_local e) data = Inr info
                \<and> fst (check_downloader_availability e) = Inr tool)"
  | (ran) output_path meeting_id data info tool where
      "fst (setup_output_directory e d) = Inr output_path"
      and "extract_meeting_id u = Inr meeting_id"
      and "fst (fetch_meeting_data e meeting_id (prepare_auth_token t)) = Inr data"
      and "parse_meeting_info (now_local e) data = Inr info"
      and "fst (check_downloader_availability e) = Inr tool"
proof -
  obtain r1 ev1 where s1: "setup_output_directory e d = (r1, ev1)"
    by (cases "setup_output_directory e d")
  have p1: "\<And>x. x \<in> set ev1 \<Longrightarrow> \<exists>p. x = MkDir p"
    using setup_output_directory_events [of _ e d] by (simp add: s1)
  show thesis
  proof (cases r1)
    case (Inl err)
    have "download_video_try e u t d = (Inl err, ev1)"
      by (simp add: download_video_try_def s1 Inl)
    then show thesis
      by (rule failed) (auto dest!: p1 simp: s1 Inl)
  next
    case r1: (Inr output_path)
    show thesis
    proof (cases "extract_meeting_id u")
      case (Inl err)
      have "download_video_try e u t d = (Inl err, ev1)"
        by (simp add: download_video_try_def s1 r1 Inl)
      then show thesis
        by (rule failed) (auto dest!: p1 simp: Inl)
    next
      case r2: (Inr meeting_id)
      obtain r3 ev2 where s3: "fetch_meeting_data e meeting_id (prepare_auth_token t) = (r3, ev2)"
        by (cases "fetch_meeting_data e meeting_id (prepare_auth_token t)")
      have p2: "\<And>x. x \<in> set ev2 \<Longrightarrow> \<exists>a b. x = HttpGet a b"
        using fetch_meeting_data_events [of _ e meeting_id "prepare_auth_token t"] by (simp add: s3)
      show thesis
      proof (cases r3)
        case (Inl err)
        have "download_video_try e u t d = (Inl err, ev1 @ ev2)"
          by (simp add: download_video_try_def s1 r1 r2 s3 Inl)
        then show thesis
          by (rule failed) (auto dest!: p1 p2 simp: r2 s3 Inl)
      next
        case r3: (Inr data)
        show thesis
        proof (cases "parse_meeting_info (now_local e) data")
          case (Inl err)
          have "download_video_try e u t d = (Inl err, ev1 @ ev2)"
            by (simp add: download_video_try_def s1 r1 r2 s3 r3 Inl)
          then show thesis
            by (rule failed) (auto dest!: p1 p2 simp: r2 s3 r3 Inl)
        next
          case r4: (Inr info)
          obtain r5 ev3 where s5: "check_downloader_availability e = (r5, ev3)"
            by (cases "check_downloader_availability e")
          have p3: "\<And>x. x \<in> set ev3 \<Longrightarrow> \<exists>a. x = Probe a"
            using check_downloader_availability_events [of _ e] by (simp add: s5)
          show thesis
          proof (cases r5)
            case (Inl err)
            have "download_video_try e u t d = (Inl err, ev1 @ ev2 @ ev3)"
              by (simp add: download_video_try_def s1 r1 r2 s3 r3 r4 s5 Inl Let_def)
            then show thesis
              by (rule failed) (auto dest!: p1 p2 p3 simp: s5 Inl)
          next
            case r5: (Inr tool)
            show thesis
              by (rule ran [of output_path meeting_id data info tool])
                (simp_all add: s1 r1 r2 s3 r3 r4 s5 r5)
          qed
        qed
      qed
    qed
  qed
qed

text \<open>The handlers of \<open>download_video\<close> turn every exception of the block into \<open>None\<close>.\<close>

lemma download_video_of_try:
  "download_video_try e u t d = (Inl err, evs) \<Longrightarrow> download_video e u t d = (Inr None, evs)"
  "download_video_try e u t d = (Inr r, evs) \<Longrightarrow> download_video e u t d = (Inr r, evs)"
  by (cases err; simp add: download_video_def)+

text \<open>
  Claim C2: \<open>download_video\<close> never ends with an exception. It returns the path \<open>p\<close>
  exactly when the directory is set up, the meeting identifier is extracted, the request
  and the parsing of its payload succeed, a tool is selected, \<open>p\<close> is the path of the
  media file in the output directory, the command of the selected tool is run as a
  process that returns 0, and \<open>p\<close> exists afterwards; so in every other case the value is
  \<open>None\<close>. In the trace this is the case where the download of \<open>p\<close> was started and the
  process that was spawned returned 0 with \<open>p\<close> on disk.
\<close>

theorem download_video_result:
  "(\<exists>r. fst (download_video e u t d) = Inr r)
   \<and> (fst (download_video e u t d) = Inr (Some p) \<longleftrightarrow>
        (\<exists>output_path meeting_id data info tool argv.
            fst (setup_output_directory e d) = Inr output_path
          \<and> extract_meeting_id u = Inr meeting_id
          \<and> fst (fetch_meeting_data e meeting_id (prepare_auth_token t)) = Inr data
          \<and> parse_meeting_info (now_local e) data = Inr info
          \<and> fst (check_downloader_availability e) = Inr tool
          \<and> p = str_of_path (truediv output_path (timestamp info @ ''_'' @ name info @ ''.mp4''))
          \<and> argv_of
               (if dname tool = ''N_m3u8DL-RE''
                then n_m3u8dl_re_command (source_url info)
                       (truediv output_path (timestamp info @ ''_'' @ name info @ ''.mp4''))
                else ffmpeg_command (source_url info)
                       (truediv output_path (timestamp info @ ''_'' @ name info @ ''.mp4'')))
              = Some argv
          \<and> subprocess_run e argv = Completed 0
          \<and> path_exists e p))
   \<and> (fst (download_video e u t d) = Inr (Some p) \<longleftrightarrow>
        (\<exists>argv. Started p \<in> set (snd (download_video e u t d))
              \<and> Spawn argv \<in> set (snd (download_video e u t d))
              \<and> subprocess_run e argv = Completed 0 \<and> path_exists e p))"
proof (cases rule: download_video_try_cases [of e u t d])
  case (failed err evs)
  have dv: "download_video e u t d = (Inr None, evs)"
    by (rule download_video_of_try(1) [OF failed(1)])
  have nS: "\<And>q. Started q \<notin> set evs"
    using failed(2) by blast
  show ?thesis
    unfolding dv using failed(3) nS by auto
next
  case (ran output_path meeting_id data info tool)
  define f where "f = truediv output_path (timestamp info @ ''_'' @ name info @ ''.mp4'')"
  define c where "c = (if dname tool = ''N_m3u8DL-RE''
                       then n_m3u8dl_re_command (source_url info) f
                       else ffmpeg_command (source_url info) f)"
  define pre where "pre = snd (setup_output_directory e d)
             @ snd (fetch_meeting_data e meeting_id (prepare_auth_token t))
             @ snd (check_downloader_availability e)
             @ [WriteFile (str_of_path (truediv output_path (timestamp info @ ''_'' @ name info))
                           @ ''.json'')]"
  have dv: "download_video e u t d =
         (Inr (if fst (run_download_command e c f) then Some (str_of_path f) else None),
          pre @ snd (run_download_command e c f))"
    unfolding pre_def
    by (rule download_video_of_try(2) [OF download_video_try_ran [OF ran f_def c_def]])
  have nS: "\<And>q. Started q \<notin> set pre" and nP: "\<And>a. Spawn a \<notin> set pre"
    unfolding pre_def
    by (auto dest: setup_output_directory_events fetch_meeting_data_events
        check_downloader_availability_events)
  have one: "\<exists>r. fst (download_video e u t d) = Inr r"
    by (simp add: dv)
  have res: "fst (download_video e u t d) = Inr (Some p) \<longleftrightarrow>
         p = str_of_path f \<and> (\<exists>argv. argv_of c = Some argv \<and> subprocess_run e argv = Completed 0
                                  \<and> path_exists e p)"
    by (auto simp: dv run_download_command_result)
  have env: "(p = str_of_path f \<and> (\<exists>argv. argv_of c = Some argv
                 \<and> subprocess_run e argv = Completed 0 \<and> path_exists e p)) \<longleftrightarrow>
        (\<exists>output_path meeting_id data info tool argv.
            fst (setup_output_directory e d) = Inr output_path
          \<and> extract_meeting_id u = Inr meeting_id
          \<and> fst (fetch_meeting_data e meeting_id (prepare_auth_token t)) = Inr data
          \<and> parse_meeting_info (now_local e) data = Inr info
          \<and> fst (check_downloader_availability e) = Inr tool
          \<and> p = str_of_path (truediv output_path (timestamp info @ ''_'' @ name info @ ''.mp4''))
          \<and> argv_of
               (if dname tool = ''N_m3u8DL-RE''
                then n_m3u8dl_re_command (source_url info)
                       (truediv output_path (timestamp info @ ''_'' @ name info @ ''.mp4''))
                else ffmpeg_command (source_url info)
                       (truediv output_path (timestamp info @ ''_'' @ name info @ ''.mp4'')))
              = Some argv
          \<and> subprocess_run e argv = Completed 0
          \<and> path_exists e p)"
    (is "?L \<longleftrightarrow> ?R")
  proof
    assume ?L
    then obtain argv where "p = str_of_path f" "argv_of c = Some argv"
      "subprocess_run e argv = Completed 0" "path_exists e p" by blast
    with ran show ?R unfolding f_def c_def by blast
  next
    assume ?R
    then obtain output_path' meeting_id' data' info' tool' argv where
      h: "fst (setup_output_directory e d) = Inr output_path'"
         "extract_meeting_id u = Inr meeting_id'"
         "fst (fetch_meeting_data e meeting_id' (prepare_auth_token t)) = Inr data'"
         "parse_meeting_info (now_local e) data' = Inr info'"
         "fst (check_downloader_availability e) = Inr tool'"
         "p = str_of_path (truediv output_path' (timestamp info' @ ''_'' @ name info' @ ''.mp4''))"
         "argv_of
               (if dname tool' = ''N_m3u8DL-RE''
                then n_m3u8dl_re_command (source_url info')
                       (truediv output_path' (timestamp info' @ ''_'' @ name info' @ ''.mp4''))
                else ffmpeg_command (source_url info')
                       (truediv output_path' (timestamp info' @ ''_'' @ name info' @ ''.mp4'')))
              = Some argv"
         "subprocess_run e argv = Completed 0"
         "path_exists e p"
      by blast
    from h(1) ran(1) have a: "output_path' = output_path" by simp
    from h(2) ran(2) have b: "meeting_id' = meeting_id" by simp
    from h(3) ran(3) b have c': "data' = data" by simp
    from h(4) ran(4) c' have d': "info' = info" by simp
    from h(5) ran(5) have e': "tool' = tool" by simp
    from h(6-9) show ?L unfolding a d' e' f_def c_def by blast
  qed
  have tr: "fst (download_video e u t d) = Inr (Some p) \<longleftrightarrow>
        (\<exists>argv. Started p \<in> set (snd (download_video e u t d))
              \<and> Spawn argv \<in> set (snd (download_video e u t d))
              \<and> subprocess_run e argv = Completed 0 \<and> path_exists e p)"
    unfolding dv
    by (auto simp: run_download_command_result run_download_command_events nS nP
        split: option.splits)
  from one res env tr show ?thesis by blast
qed

text \<open>
  Claim C9: when neither version check returns 0, \<open>download_video\<close> returns \<open>None\<close>, no
  file is opened for writing and no download process is started.
\<close>

theorem download_video_no_tool:
  assumes "subprocess_run e [''N_m3u8DL-RE'', ''--version''] \<noteq> Completed 0"
      and "subprocess_run e [''ffmpeg'', ''--version''] \<noteq> Completed 0"
  shows "fst (download_video e u t d) = Inr None
       \<and> (\<forall>p. WriteFile p \<notin> set (snd (download_video e u t d)))
       \<and> (\<forall>p. Started p \<notin> set (snd (download_video e u t d)))
       \<and> (\<forall>argv. Spawn argv \<notin> set (snd (download_video e u t d)))"
proof (cases rule: download_video_try_cases [of e u t d])
  case (failed err evs)
  from download_video_of_try(1) [OF failed(1)] failed(2) show ?thesis by fastforce
next
  case (ran output_path meeting_id data info tool)
  from check_downloader_availability_none [OF assms] ran(5) have False by auto
  then show ?thesis ..
qed

lemma strip_sample: "strip sample_url = sample_url"
  by (simp add: strip_def strip_by_def lstrip_by_def rstrip_by_def isspace_def sample_url_def)

lemma extract_sample: "extract_meeting_id sample_url = Inr ''64f0c2a9b1d3e45f6a7b8c9d''"
  by (simp add: extract_meeting_id_def strip_sample rstrip_chars_def rstrip_by_def
       extract_meeting_id_try_def)
    (simp add: sample_url_def)

lemma prepare_sample: "prepare_auth_token ''token'' = ''Bearer token''"
  by (simp add: prepare_auth_token_def strip_def strip_by_def lstrip_by_def rstrip_by_def
      isspace_def startswith_def)

lemma path_home: "Path ''/home/user'' = \<lparr>root = ''/'', parts = [''home'', ''user'']\<rparr>"
  by (simp add: Path_def)

lemma setup_sample:
  "setup_output_directory env_without_tools None =
     (Inr \<lparr>root = ''/'', parts = [''home'', ''user'']\<rparr>, [])"
  "setup_output_directory env_with_tools None =
     (Inr \<lparr>root = ''/'', parts = [''home'', ''user'']\<rparr>, [])"
  by (simp_all add: setup_output_directory_def env_with_tools_def env_without_tools_def path_home)

lemma fetch_sample:
  "fetch_meeting_data env_without_tools ''64f0c2a9b1d3e45f6a7b8c9d'' ''Bearer token'' =
     (Inr sample_payload,
      [HttpGet ''https://gw.tldv.io/v1/meetings/64f0c2a9b1d3e45f6a7b8c9d/watch-page?noTranscript=true''
               ''Bearer token''])"
  "fetch_meeting_data env_with_tools ''64f0c2a9b1d3e45f6a7b8c9d'' ''Bearer token'' =
     (Inr sample_payload,
      [HttpGet ''https://gw.tldv.io/v1/meetings/64f0c2a9b1d3e45f6a7b8c9d/watch-page?noTranscript=true''
               ''Bearer token''])"
  by (simp_all add: fetch_meeting_data_def env_with_tools_def env_without_tools_def)

text \<open>
  With a valid URL and token and no tool installed, the run gets as far as the two
  version checks: the request is sent, the payload parses, and nothing is written.
\<close>

lemma download_video_sample_trace:
  "download_video env_without_tools sample_url ''token'' None =
     (Inr None,
      [HttpGet ''https://gw.tldv.io/v1/meetings/64f0c2a9b1d3e45f6a7b8c9d/watch-page?noTranscript=true''
               ''Bearer token'',
       Probe [''N_m3u8DL-RE'', ''--version''], Probe [''ffmpeg'', ''--version'']])"
proof -
  have chk: "check_downloader_availability env_without_tools =
      (Inl no_downloader_available,
       [Probe [''N_m3u8DL-RE'', ''--version''], Probe [''ffmpeg'', ''--version'']])"
    by (simp add: check_downloader_availability_def downloaders_def n_m3u8dl_re_def ffmpeg_def
        env_without_tools_def)
  have "download_video_try env_without_tools sample_url ''token'' None =
     (Inl no_downloader_available,
      [HttpGet ''https://gw.tldv.io/v1/meetings/64f0c2a9b1d3e45f6a7b8c9d/watch-page?noTranscript=true''
               ''Bearer token'',
       Probe [''N_m3u8DL-RE'', ''--version''], Probe [''ffmpeg'', ''--version'']])"
    by (simp add: download_video_try_def setup_sample extract_sample prepare_sample fetch_sample
        parse_meeting_info_sample chk)
  then show ?thesis
    by (simp add: download_video_def no_downloader_available_def)
qed

text \<open>Claim C9, in the sample environment where neither tool is installed.\<close>

theorem download_video_no_tool_witness:
  "subprocess_run env_without_tools [''N_m3u8DL-RE'', ''--version''] \<noteq> Completed 0
   \<and> subprocess_run env_without_tools [''ffmpeg'', ''--version''] \<noteq> Completed 0
   \<and> fst (download_video env_without_tools sample_url ''token'' None) = Inr None
   \<and> (\<forall>p. WriteFile p \<notin> set (snd (download_video env_without_tools sample_url ''token'' None)))
   \<and> (\<forall>argv. Spawn argv \<notin> set (snd (download_video env_without_tools sample_url ''token'' None)))"
proof -
  have h1: "subprocess_run env_without_tools [''N_m3u8DL-RE'', ''--version''] \<noteq> Completed 0"
    by (simp add: env_without_tools_def)
  have h2: "subprocess_run env_without_tools [''ffmpeg'', ''--version''] \<noteq> Completed 0"
    by (simp add: env_without_tools_def)
  from download_video_no_tool [OF h1 h2, of sample_url "''token''" None] h1 h2
  show ?thesis by blast
qed

text \<open>
  With both tools installed and a download that succeeds, the primary tool is run and
  the path of the media file is returned; the metadata is written before the download.
\<close>

lemma path_sample:
  "truediv \<lparr>root = ''/'', parts = [''home'', ''user'']\<rparr> ''2024-03-15_10-30-00_Weekly_ sync.mp4''
     = \<lparr>root = ''/'', parts = [''home'', ''user'', ''2024-03-15_10-30-00_Weekly_ sync.mp4'']\<rparr>"
  "truediv \<lparr>root = ''/'', parts = [''home'', ''user'']\<rparr> ''2024-03-15_10-30-00_Weekly_ sync''
     = \<lparr>root = ''/'', parts = [''home'', ''user'', ''2024-03-15_10-30-00_Weekly_ sync'']\<rparr>"
  "str_of_path \<lparr>root = ''/'', parts = [''home'', ''user'', ''2024-03-15_10-30-00_Weekly_ sync.mp4'']\<rparr>
     = ''/home/user/2024-03-15_10-30-00_Weekly_ sync.mp4''"
  "str_of_path \<lparr>root = ''/'', parts = [''home'', ''user'', ''2024-03-15_10-30-00_Weekly_ sync'']\<rparr>
     = ''/home/user/2024-03-15_10-30-00_Weekly_ sync''"
  "path_stem \<lparr>root = ''/'', parts = [''home'', ''user'', ''2024-03-15_10-30-00_Weekly_ sync.mp4'']\<rparr>
     = ''2024-03-15_10-30-00_Weekly_ sync''"
  "str_of_path (path_parent
       \<lparr>root = ''/'', parts = [''home'', ''user'', ''2024-03-15_10-30-00_Weekly_ sync.mp4'']\<rparr>)
     = ''/home/user''"
  by (simp_all add: truediv_def startswith_def Path_def str_of_path_def path_stem_def
      path_name_def path_parent_def Let_def)

lemma check_sample:
  "check_downloader_availability env_with_tools =
      (Inr n_m3u8dl_re,
       [Probe [''N_m3u8DL-RE'', ''--version''], Probe [''ffmpeg'', ''--version'']])"
  by (simp add: check_downloader_availability_def downloaders_def n_m3u8dl_re_def ffmpeg_def
      env_with_tools_def env_without_tools_def)

lemma command_sample:
  "argv_of (n_m3u8dl_re_command (JStr ''https://media.example/stream.m3u8'')
       \<lparr>root = ''/'', parts = [''home'', ''user'', ''2024-03-15_10-30-00_Weekly_ sync.mp4'']\<rparr>)
   = Some [''N_m3u8DL-RE'', ''https://media.example/stream.m3u8'',
           ''--save-name'', ''2024-03-15_10-30-00_Weekly_ sync'',
           ''--save-dir'', ''/home/user'',
           ''--thread-count'', ''8'', ''--download-retry-count'', ''3'',
           ''--auto-select'', ''--no-log'']"
  by (simp add: n_m3u8dl_re_command_def path_sample)

lemma download_video_sample_success:
  "download_video env_with_tools sample_url ''token'' None =
     (Inr (Some ''/home/user/2024-03-15_10-30-00_Weekly_ sync.mp4''),
      [HttpGet ''https://gw.tldv.io/v1/meetings/64f0c2a9b1d3e45f6a7b8c9d/watch-page?noTranscript=true''
               ''Bearer token'',
       Probe [''N_m3u8DL-RE'', ''--version''], Probe [''ffmpeg'', ''--version''],
       WriteFile ''/home/user/2024-03-15_10-30-00_Weekly_ sync.json'',
       Started ''/home/user/2024-03-15_10-30-00_Weekly_ sync.mp4'',
       Spawn [''N_m3u8DL-RE'', ''https://media.example/stream.m3u8'',
              ''--save-name'', ''2024-03-15_10-30-00_Weekly_ sync'',
              ''--save-dir'', ''/home/user'',
              ''--thread-count'', ''8'', ''--download-retry-count'', ''3'',
              ''--auto-select'', ''--no-log'']])"
proof -
  have run: "subprocess_run env_with_tools = (\<lambda>argv. Completed 0)"
    "path_exists env_with_tools = (\<lambda>p. True)"
    by (simp_all add: env_with_tools_def)
  have "download_video_try env_with_tools sample_url ''token'' None =
     (Inr (Some ''/home/user/2024-03-15_10-30-00_Weekly_ sync.mp4''),
      [HttpGet ''https://gw.tldv.io/v1/meetings/64f0c2a9b1d3e45f6a7b8c9d/watch-page?noTranscript=true''
               ''Bearer token'',
       Probe [''N_m3u8DL-RE'', ''--version''], Probe [''ffmpeg'', ''--version''],
       WriteFile ''/home/user/2024-03-15_10-30-00_Weekly_ sync.json'',
       Started ''/home/user/2024-03-15_10-30-00_Weekly_ sync.mp4'',
       Spawn [''N_m3u8DL-RE'', ''https://media.example/stream.m3u8'',
              ''--save-name'', ''2024-03-15_10-30-00_Weekly_ sync'',
              ''--save-dir'', ''/home/user'',
              ''--thread-count'', ''8'', ''--download-retry-count'', ''3'',
              ''--auto-select'', ''--no-log'']])"
    by (simp add: download_video_try_def setup_sample extract_sample prepare_sample fetch_sample
        parse_meeting_info_sample check_sample n_m3u8dl_re_def [THEN arg_cong, of dname]
        save_metadata_def download_with_n_m3u8dl_re_def run_download_command_def run
        path_sample command_sample Let_def)
  then show ?thesis
    by (simp add: download_video_def)
qed

text \<open>
  Claim C2, in the sample environment where both tools are installed and the download
  succeeds: every step succeeds, so the path of the media file is returned, and the trace
  holds the process that returned 0.
\<close>

theorem download_video_result_witness:
  "fst (download_video env_with_tools sample_url ''token'' None) =
     Inr (Some ''/home/user/2024-03-15_10-30-00_Weekly_ sync.mp4'')
   \<and> (\<exists>argv. Spawn argv \<in> set (snd (download_video env_with_tools sample_url ''token'' None))
            \<and> subprocess_run env_with_tools argv = Completed 0)"
proof -
  let ?info = "\<lparr>name = ''Weekly_ sync'', timestamp = ''2024-03-15_10-30-00'',
                source_url = JStr ''https://media.example/stream.m3u8'',
                full_data = sample_payload\<rparr>"
  let ?dir = "\<lparr>root = ''/'', parts = [''home'', ''user'']\<rparr>"
  let ?argv = "[''N_m3u8DL-RE'', ''https://media.example/stream.m3u8'',
           ''--save-name'', ''2024-03-15_10-30-00_Weekly_ sync'',
           ''--save-dir'', ''/home/user'',
           ''--thread-count'', ''8'', ''--download-retry-count'', ''3'',
           ''--auto-select'', ''--no-log'']"
  have f1: "fst (setup_output_directory env_with_tools None) = Inr ?dir"
    by (simp add: setup_sample)
  have f3: "fst (fetch_meeting_data env_with_tools ''64f0c2a9b1d3e45f6a7b8c9d''
                  (prepare_auth_token ''token'')) = Inr sample_payload"
    by (simp add: prepare_sample fetch_sample)
  have f4: "parse_meeting_info (now_local env_with_tools) sample_payload = Inr ?info"
    by (rule parse_meeting_info_sample)
  have f5: "fst (check_downloader_availability env_with_tools) = Inr n_m3u8dl_re"
    by (simp add: check_sample)
  have f6: "''/home/user/2024-03-15_10-30-00_Weekly_ sync.mp4'' =
      str_of_path (truediv ?dir (timestamp ?info @ ''_'' @ name ?info @ ''.mp4''))"
    by (simp add: path_sample)
  have f7: "argv_of
               (if dname n_m3u8dl_re = ''N_m3u8DL-RE''
                then n_m3u8dl_re_command (source_url ?info)
                       (truediv ?dir (timestamp ?info @ ''_'' @ name ?info @ ''.mp4''))
                else ffmpeg_command (source_url ?info)
                       (truediv ?dir (timestamp ?info @ ''_'' @ name ?info @ ''.mp4'')))
              = Some ?argv"
    by (simp add: n_m3u8dl_re_def [THEN arg_cong, of dname] path_sample command_sample)
  have f8: "subprocess_run env_with_tools ?argv = Completed 0"
    by (simp add: env_with_tools_def)
  have f9: "path_exists env_with_tools ''/home/user/2024-03-15_10-30-00_Weekly_ sync.mp4''"
    by (simp add: env_with_tools_def)
  note inst = download_video_result [of env_with_tools sample_url "''token''" None
      "''/home/user/2024-03-15_10-30-00_Weekly_ sync.mp4''"]
  have r: "fst (download_video env_with_tools sample_url ''token'' None) =
     Inr (Some ''/home/user/2024-03-15_10-30-00_Weekly_ sync.mp4'')"
    using inst f1 extract_sample f3 f4 f5 f6 f7 f8 f9 by blast
  with inst show ?thesis by blast
qed

section \<open>download_multiple_videos\<close>

text \<open>
  Claim C10: for the empty list the call returns the empty list and does nothing else,
  whatever the output directory and the pool size are.
\<close>

theorem download_multiple_videos_empty:
  "download_multiple_videos e [] output_dir max_workers =
     \<lparr>returned = Inr (Some []), successful_downloads = [], failed_downloads = [], events = []\<rparr>"
  by (simp add: download_multiple_videos_def)

text \<open>For a list that is not empty no call returns a list.\<close>

lemma download_multiple_videos_nonempty_returned:
  "returned (download_multiple_videos e (item # items) output_dir max_workers) \<noteq> Inr (Some outcomes)"
  by (simp add: download_multiple_videos_def Let_def split: prod.splits sum.splits)

text \<open>
  When the scheduler's order is a permutation of the tasks, the two lists of the summary
  hold one outcome for each item between them; they are printed and dropped.
\<close>

lemma download_multiple_videos_summary:
  assumes "setup_output_directory e output_dir = (Inr output_path, ev1)"
      and "0 < max_workers"
      and "items \<noteq> []"
      and "distinct (completion_order e (length items))"
      and "set (completion_order e (length items)) = {0..<length items}"
  shows "length (successful_downloads (download_multiple_videos e items output_dir max_workers))
         + length (failed_downloads (download_multiple_videos e items output_dir max_workers))
         = length items"
proof -
  let ?n = "length items"
  have all: "filter (\<lambda>i. i < ?n) (completion_order e ?n) = completion_order e ?n"
    using assms(5) by (auto simp: filter_id_conv)
  have len: "length (completion_order e ?n) = ?n"
    using distinct_card [OF assms(4)] assms(5) by simp
  define completed where
    "completed = map (\<lambda>i. fst (map (download_single e output_path) items ! i))
                     (completion_order e ?n)"
  have c: "length completed = ?n"
    by (simp add: completed_def len)
  have s: "successful_downloads (download_multiple_videos e items output_dir max_workers)
             = filter success completed"
    and f: "failed_downloads (download_multiple_videos e items output_dir max_workers)
             = filter (\<lambda>r. \<not> success r) completed"
    using assms(1-3) unfolding completed_def
    by (simp_all add: download_multiple_videos_def Let_def all)
  show ?thesis
    unfolding s f using sum_length_filter_compl [of success completed] c by simp
qed

text \<open>
  Claim C1, at a list of one item: the call runs to its end, where there is no \<open>return\<close>
  statement, and the caller gets \<open>None\<close>, not a list of outcomes.
\<close>

theorem download_multiple_videos_returns_None:
  "returned (download_multiple_videos e
      [(''https://tldv.io/app/meetings/64f0c2a9b1d3e45f6a7b8c9d'', ''token'')] None 3) = Inr None"
  by (simp add: download_multiple_videos_def setup_output_directory_def Let_def)

end
